theory Spec2Isabelle
  imports Complex_Main "HOL-Library.Sublist"
begin

section \<open>Python values and exceptions\<close>

text \<open>
  The pipeline of \<^verbatim>\<open>functions.py\<close> moves untyped Python values around: parsed JSON
  bodies, the dictionaries of a transcript, the cells of a data frame. One datatype holds
  them all. A dictionary is an association list with string keys, looked up with
  \<open>map_of\<close>. Every exception that some call can raise is a constructor of \<open>py_error\<close>,
  and a call that can raise returns \<open>py_error + 'a\<close> with \<open>Inl\<close> for the exception.
\<close>

datatype py_error =
    KeyError
  | TypeError
  | IndexError
  | ValueError
  | StopIteration
  | JSONDecodeError
  | FileNotFoundError
  | ColumnNotFoundError
  | SchemaError
  | ShapeError
  | DuplicateError
  | ComputeError
  | ExternalError string

datatype pyval =
    PNone
  | PBool bool
  | PInt int
  | PFloat real
  | PStr string
  | PDatetime int
  | PList "pyval list"
  | PDict "(string \<times> pyval) list"

text \<open>\<^verbatim>\<open>x[key]\<close> with a string key: only a dictionary accepts it.\<close>

fun py_getitem :: "pyval \<Rightarrow> string \<Rightarrow> py_error + pyval" where
  "py_getitem (PDict kvs) k = (case map_of kvs k of None \<Rightarrow> Inl KeyError | Some v \<Rightarrow> Inr v)"
| "py_getitem _ k = Inl TypeError"

text \<open>\<^verbatim>\<open>len(x)\<close>.\<close>

fun py_len :: "pyval \<Rightarrow> py_error + nat" where
  "py_len (PList xs) = Inr (length xs)"
| "py_len (PStr s) = Inr (length s)"
| "py_len (PDict kvs) = Inr (length kvs)"
| "py_len _ = Inl TypeError"

text \<open>
  \<^verbatim>\<open>x[i]\<close> with a non-negative integer \<open>i\<close>. A dictionary of this model has string keys
  only, so an integer key is never found.
\<close>

fun py_index :: "pyval \<Rightarrow> nat \<Rightarrow> py_error + pyval" where
  "py_index (PList xs) i = (if i < length xs then Inr (xs ! i) else Inl IndexError)"
| "py_index (PStr s) i = (if i < length s then Inr (PStr [s ! i]) else Inl IndexError)"
| "py_index (PDict kvs) i = Inl KeyError"
| "py_index _ i = Inl TypeError"

text \<open>\<^verbatim>\<open>for item in x\<close>: the sequence of values the loop variable takes.\<close>

fun py_iter :: "pyval \<Rightarrow> py_error + pyval list" where
  "py_iter (PList xs) = Inr xs"
| "py_iter (PStr s) = Inr (map (\<lambda>c. PStr [c]) s)"
| "py_iter (PDict kvs) = Inr (map (\<lambda>kv. PStr (fst kv)) kvs)"
| "py_iter _ = Inl TypeError"

text \<open>
  \<^verbatim>\<open>sep.join(xs)\<close> on a list: every element has to be a string. \<open>join_strs\<close> is the
  concatenation itself, \<open>py_join\<close> adds the type check.
\<close>

fun join_strs :: "string \<Rightarrow> string list \<Rightarrow> string" where
  "join_strs sep [] = []"
| "join_strs sep [x] = x"
| "join_strs sep (x # y # ys) = x @ sep @ join_strs sep (y # ys)"

fun the_strs :: "pyval list \<Rightarrow> py_error + string list" where
  "the_strs [] = Inr []"
| "the_strs (PStr s # vs) = (case the_strs vs of Inl e \<Rightarrow> Inl e | Inr ss \<Rightarrow> Inr (s # ss))"
| "the_strs (_ # vs) = Inl TypeError"

definition py_join :: "string \<Rightarrow> pyval list \<Rightarrow> py_error + pyval" where
  "py_join sep vs = (case the_strs vs of Inl e \<Rightarrow> Inl e | Inr ss \<Rightarrow> Inr (PStr (join_strs sep ss)))"

section \<open>Transcript Fetcher: extractTranscriptText\<close>

text \<open>
  \<^verbatim>\<open>
  text_list = [transcript[i]['text'] for i in range(len(transcript))]
  return ' '.join(text_list)
  \<close>
  The comprehension is the loop \<open>text_list_loop\<close> over the indices; the first
  subscript that raises ends it.
\<close>

fun text_list_loop :: "pyval \<Rightarrow> nat list \<Rightarrow> py_error + pyval list" where
  "text_list_loop transcript [] = Inr []"
| "text_list_loop transcript (i # is) =
     (case py_index transcript i of
        Inl e \<Rightarrow> Inl e
      | Inr fragment \<Rightarrow>
          (case py_getitem fragment ''text'' of
             Inl e \<Rightarrow> Inl e
           | Inr t \<Rightarrow>
               (case text_list_loop transcript is of
                  Inl e \<Rightarrow> Inl e
                | Inr ts \<Rightarrow> Inr (t # ts))))"

definition extractTranscriptText :: "pyval \<Rightarrow> py_error + pyval" where
  "extractTranscriptText transcript =
     (case py_len transcript of
        Inl e \<Rightarrow> Inl e
      | Inr n \<Rightarrow>
          (case text_list_loop transcript [0..<n] of
             Inl e \<Rightarrow> Inl e
           | Inr text_list \<Rightarrow> py_join '' '' text_list))"

text \<open>A caption fragment as the transcript service documents it: a dictionary whose
  \<open>text\<close> entry is a string.\<close>

definition fragment_text :: "pyval \<Rightarrow> string \<Rightarrow> bool" where
  "fragment_text fragment t \<longleftrightarrow> py_getitem fragment ''text'' = Inr (PStr t)"

section \<open>Data frames and persisted artifacts\<close>

text \<open>
  A polars data frame is an ordered list of named columns, every column a list of cells.
  \<^verbatim>\<open>len(df)\<close> is the height, read off the first column; a frame without columns has
  height 0. polars infers a type for every column; the model keeps the Python values and
  checks the type where an operation depends on it.
\<close>

type_synonym dataframe = "(string \<times> pyval list) list"

definition df_len :: "dataframe \<Rightarrow> nat" where
  "df_len df = (case df of [] \<Rightarrow> 0 | c # cs \<Rightarrow> length (snd c))"

text \<open>\<^verbatim>\<open>df[name]\<close>.\<close>

definition df_getitem :: "dataframe \<Rightarrow> string \<Rightarrow> py_error + pyval list" where
  "df_getitem df name = (case map_of df name of None \<Rightarrow> Inl ColumnNotFoundError | Some col \<Rightarrow> Inr col)"

text \<open>\<^verbatim>\<open>series[i]\<close> with a non-negative index.\<close>

definition series_getitem :: "pyval list \<Rightarrow> nat \<Rightarrow> py_error + pyval" where
  "series_getitem col i = (if i < length col then Inr (col ! i) else Inl IndexError)"

text \<open>
  \<^verbatim>\<open>df.with_columns(series)\<close>: a column of that name is replaced where it stands, a new
  name is appended on the right. polars refuses a series whose length is not the height
  of a frame that has columns.
\<close>

fun set_column :: "string \<Rightarrow> pyval list \<Rightarrow> dataframe \<Rightarrow> dataframe" where
  "set_column name col [] = [(name, col)]"
| "set_column name col (c # cs) =
     (if fst c = name then (name, col) # cs else c # set_column name col cs)"

definition with_columns :: "dataframe \<Rightarrow> string \<Rightarrow> pyval list \<Rightarrow> py_error + dataframe" where
  "with_columns df name col =
     (if df \<noteq> [] \<and> length col \<noteq> df_len df then Inl ShapeError
      else Inr (set_column name col df))"

text \<open>
  The parquet files are the state the stages share: a map from path to the frame last
  written there. Reading returns the frame as it was written.
\<close>

type_synonym files = "string \<rightharpoonup> dataframe"

definition read_parquet :: "files \<Rightarrow> string \<Rightarrow> py_error + dataframe" where
  "read_parquet fs path = (case fs path of None \<Rightarrow> Inl FileNotFoundError | Some df \<Rightarrow> Inr df)"

definition write_parquet :: "files \<Rightarrow> string \<Rightarrow> dataframe \<Rightarrow> files" where
  "write_parquet fs path df = fs(path \<mapsto> df)"

section \<open>Transcript Fetcher: getVideoTranscripts\<close>

text \<open>
  The transcript service is outside the repository and may answer differently every time
  it is asked: \<open>get_transcript i vid\<close> is what the call of loop round \<open>i\<close> returns or
  raises when it is given \<open>vid\<close>.

  \<open>transcript_text_of\<close> is the body of the \<^verbatim>\<open>try\<close>: the column lookup, the service call
  and extractTranscriptText all stand inside it, and the bare \<^verbatim>\<open>except\<close> turns whatever
  they raise into \<^verbatim>\<open>"n/a"\<close>.
\<close>

definition transcript_text_of ::
  "(nat \<Rightarrow> pyval \<Rightarrow> py_error + pyval) \<Rightarrow> dataframe \<Rightarrow> nat \<Rightarrow> pyval" where
  "transcript_text_of get_transcript df i =
     (case df_getitem df ''video_id'' of
        Inl e \<Rightarrow> PStr ''n/a''
      | Inr ids \<Rightarrow>
          (case series_getitem ids i of
             Inl e \<Rightarrow> PStr ''n/a''
           | Inr vid \<Rightarrow>
               (case get_transcript i vid of
                  Inl e \<Rightarrow> PStr ''n/a''
                | Inr transcript \<Rightarrow>
                    (case extractTranscriptText transcript of
                       Inl e \<Rightarrow> PStr ''n/a''
                     | Inr transcript_text \<Rightarrow> transcript_text))))"

fun transcript_text_loop ::
  "(nat \<Rightarrow> pyval \<Rightarrow> py_error + pyval) \<Rightarrow> dataframe \<Rightarrow> nat list \<Rightarrow> pyval list \<Rightarrow> pyval list" where
  "transcript_text_loop get_transcript df [] transcript_text_list = transcript_text_list"
| "transcript_text_loop get_transcript df (i # is) transcript_text_list =
     transcript_text_loop get_transcript df is
       (transcript_text_list @ [transcript_text_of get_transcript df i])"

definition getVideoTranscripts ::
  "(nat \<Rightarrow> pyval \<Rightarrow> py_error + pyval) \<Rightarrow> files \<Rightarrow> py_error + files" where
  "getVideoTranscripts get_transcript fs =
     (case read_parquet fs ''data/video-ids.parquet'' of
        Inl e \<Rightarrow> Inl e
      | Inr df \<Rightarrow>
          (case with_columns df ''transcript''
                  (transcript_text_loop get_transcript df [0..<df_len df] []) of
             Inl e \<Rightarrow> Inl e
           | Inr df' \<Rightarrow> Inr (write_parquet fs ''data/video-transcripts.parquet'' df')))"

text \<open>An identity table of three videos and a service that fails on the second.\<close>

definition three_ids :: dataframe where
  "three_ids =
     [(''video_id'', [PStr ''v1'', PStr ''v2'', PStr ''v3'']),
      (''datetime'', [PStr ''2024-01-01T00:00:00Z'', PStr ''2024-01-02T00:00:00Z'', PStr ''2024-01-03T00:00:00Z'']),
      (''title'', [PStr ''one'', PStr ''two'', PStr ''three''])]"

definition flaky_service :: "nat \<Rightarrow> pyval \<Rightarrow> py_error + pyval" where
  "flaky_service i vid =
     (if vid = PStr ''v1'' then Inr (PList [PDict [(''text'', PStr ''a'')], PDict [(''text'', PStr ''b'')]])
      else if vid = PStr ''v2'' then Inl (ExternalError ''TranscriptsDisabled'')
      else Inr (PList [PDict [(''text'', PStr ''c'')]]))"

section \<open>Data Transformer: handleSpecialStrings\<close>

text \<open>
  \<^verbatim>\<open>series.str.replace(pattern, value)\<close> of polars, called with its defaults
  (\<^verbatim>\<open>literal=False\<close>, \<^verbatim>\<open>n=1\<close>): the leftmost match of the pattern is replaced and
  nothing after it. The pattern is read as a regular expression, but none of the three
  patterns of handleSpecialStrings holds a metacharacter and none of the three values
  holds a dollar sign, so each pattern matches its own text and nothing else and each
  value is inserted as it stands. \<open>str_replace\<close> is that scan from the left.
\<close>

fun str_replace :: "string \<Rightarrow> string \<Rightarrow> string \<Rightarrow> string" where
  "str_replace p v [] = (if p = [] then v else [])"
| "str_replace p v (c # cs) =
     (if prefix p (c # cs) then v @ drop (length p) (c # cs) else c # str_replace p v cs)"

text \<open>On a column: a null cell stays null, a cell that is not a string is refused.\<close>

fun series_str_replace :: "string \<Rightarrow> string \<Rightarrow> pyval list \<Rightarrow> py_error + pyval list" where
  "series_str_replace p v [] = Inr []"
| "series_str_replace p v (PStr s # cs) =
     (case series_str_replace p v cs of Inl e \<Rightarrow> Inl e | Inr cs' \<Rightarrow> Inr (PStr (str_replace p v s) # cs'))"
| "series_str_replace p v (PNone # cs) =
     (case series_str_replace p v cs of Inl e \<Rightarrow> Inl e | Inr cs' \<Rightarrow> Inr (PNone # cs'))"
| "series_str_replace p v (_ # cs) = Inl SchemaError"

definition special_strings :: "string list" where
  "special_strings = [''&#39;'', ''&amp;'', ''sha '']"

definition special_string_replacements :: "string list" where
  "special_string_replacements = [[CHR 0x27], ''&'', ''Shaw '']"

text \<open>
  \<^verbatim>\<open>df.with_columns(df[name].str.replace(special_strings[i],
  special_string_replacements[i]).alias(name))\<close>
\<close>

definition replace_in_column :: "string \<Rightarrow> nat \<Rightarrow> dataframe \<Rightarrow> py_error + dataframe" where
  "replace_in_column name i df =
     (case df_getitem df name of
        Inl e \<Rightarrow> Inl e
      | Inr col \<Rightarrow>
          (case series_str_replace (special_strings ! i) (special_string_replacements ! i) col of
             Inl e \<Rightarrow> Inl e
           | Inr col' \<Rightarrow> with_columns df name col'))"

fun handleSpecialStrings_loop :: "nat list \<Rightarrow> dataframe \<Rightarrow> py_error + dataframe" where
  "handleSpecialStrings_loop [] df = Inr df"
| "handleSpecialStrings_loop (i # is) df =
     (case replace_in_column ''title'' i df of
        Inl e \<Rightarrow> Inl e
      | Inr df1 \<Rightarrow>
          (case replace_in_column ''transcript'' i df1 of
             Inl e \<Rightarrow> Inl e
           | Inr df2 \<Rightarrow> handleSpecialStrings_loop is df2))"

definition handleSpecialStrings :: "dataframe \<Rightarrow> py_error + dataframe" where
  "handleSpecialStrings df = handleSpecialStrings_loop [0..<length special_strings] df"

definition one_row :: "string \<Rightarrow> string \<Rightarrow> dataframe" where
  "one_row t r =
     [(''video_id'', [PStr ''v1'']), (''datetime'', [PStr ''2024-01-01T00:00:00Z'']),
      (''title'', [PStr t]), (''transcript'', [PStr r])]"

text \<open>
  What the three replacements amount to on one string, in the order of the list:
  apostrophe entity, ampersand entity, lowercase name.
\<close>

definition cleaned :: "string \<Rightarrow> string" where
  "cleaned s =
     str_replace ''sha '' ''Shaw '' (str_replace ''&amp;'' ''&'' (str_replace ''&#39;'' [CHR 0x27] s))"

fun cell_replace :: "string \<Rightarrow> string \<Rightarrow> pyval \<Rightarrow> pyval" where
  "cell_replace p v (PStr s) = PStr (str_replace p v s)"
| "cell_replace p v c = c"

fun cleaned_cell :: "pyval \<Rightarrow> pyval" where
  "cleaned_cell (PStr s) = PStr (cleaned s)"
| "cleaned_cell c = c"

text \<open>A column of text as handleSpecialStrings needs it: present, of the frame's height,
  every cell a string or null.\<close>

fun text_cell :: "pyval \<Rightarrow> bool" where
  "text_cell (PStr s) = True"
| "text_cell PNone = True"
| "text_cell _ = False"

definition text_column :: "dataframe \<Rightarrow> string \<Rightarrow> pyval list \<Rightarrow> bool" where
  "text_column df name col \<longleftrightarrow>
     df_getitem df name = Inr col \<and> list_all text_cell col \<and> length col = df_len df"

text \<open>Text that holds none of the searched sequences.\<close>

definition special_free :: "string \<Rightarrow> bool" where
  "special_free s = list_all (\<lambda>p. \<not> sublist p s) special_strings"

fun special_free_cell :: "pyval \<Rightarrow> bool" where
  "special_free_cell (PStr s) = special_free s"
| "special_free_cell c = True"

definition special_free_column :: "dataframe \<Rightarrow> string \<Rightarrow> bool" where
  "special_free_column df name =
     (case df_getitem df name of Inl e \<Rightarrow> False | Inr col \<Rightarrow> list_all special_free_cell col)"

text \<open>Two passes of handleSpecialStrings, the second on the result of the first.\<close>

definition handleSpecialStrings_twice :: "dataframe \<Rightarrow> py_error + dataframe" where
  "handleSpecialStrings_twice df =
     (case handleSpecialStrings df of Inl e \<Rightarrow> Inl e | Inr df1 \<Rightarrow> handleSpecialStrings df1)"

section \<open>Video Lister: getVideoRecords\<close>

text \<open>
  A response of the HTTP layer, reduced to what the code reads of it:
  \<^verbatim>\<open>json.loads(response.text)\<close> either returns the parsed body or raises because the text is
  not JSON (\<open>None\<close>).
\<close>

datatype response = Response "pyval option"

fun json_loads_text :: "response \<Rightarrow> py_error + pyval" where
  "json_loads_text (Response None) = Inl JSONDecodeError"
| "json_loads_text (Response (Some parsed)) = Inr parsed"

text \<open>Chained subscripts \<^verbatim>\<open>x[k1][k2]...\<close>.\<close>

fun py_path :: "pyval \<Rightarrow> string list \<Rightarrow> py_error + pyval" where
  "py_path v [] = Inr v"
| "py_path v (k # ks) = (case py_getitem v k of Inl e \<Rightarrow> Inl e | Inr v' \<Rightarrow> py_path v' ks)"

text \<open>The dictionary \<^verbatim>\<open>video_record\<close> with its three keys.\<close>

record video_record =
  video_id :: pyval
  datetime :: pyval
  title :: pyval

text \<open>
  The loop over the items. The kind is compared first, so an item of another kind needs
  no \<^verbatim>\<open>videoId\<close> and no \<^verbatim>\<open>snippet\<close>; a subscript that raises ends the function.
\<close>

fun getVideoRecords_loop :: "pyval list \<Rightarrow> video_record list \<Rightarrow> py_error + video_record list" where
  "getVideoRecords_loop [] video_record_list = Inr video_record_list"
| "getVideoRecords_loop (raw_item # rest) video_record_list =
     (case py_path raw_item [''id'', ''kind''] of
        Inl e \<Rightarrow> Inl e
      | Inr kind \<Rightarrow>
          if kind \<noteq> PStr ''youtube#video'' then getVideoRecords_loop rest video_record_list
          else
            (case py_path raw_item [''id'', ''videoId''] of
               Inl e \<Rightarrow> Inl e
             | Inr vid \<Rightarrow>
                 (case py_path raw_item [''snippet'', ''publishedAt''] of
                    Inl e \<Rightarrow> Inl e
                  | Inr published \<Rightarrow>
                      (case py_path raw_item [''snippet'', ''title''] of
                         Inl e \<Rightarrow> Inl e
                       | Inr t \<Rightarrow>
                           getVideoRecords_loop rest
                             (video_record_list @
                                [\<lparr>video_id = vid, datetime = published, title = t\<rparr>])))))"

definition getVideoRecords :: "response \<Rightarrow> py_error + video_record list" where
  "getVideoRecords response =
     (case json_loads_text response of
        Inl e \<Rightarrow> Inl e
      | Inr parsed \<Rightarrow>
          (case py_getitem parsed ''items'' of
             Inl e \<Rightarrow> Inl e
           | Inr items \<Rightarrow>
               (case py_iter items of
                  Inl e \<Rightarrow> Inl e
                | Inr raw_items \<Rightarrow> getVideoRecords_loop raw_items [])))"

text \<open>The words of the specification: an item is a video when its \<open>id.kind\<close> says so, and a
  record belongs to an item when its three fields are the item's.\<close>

definition is_video :: "pyval \<Rightarrow> bool" where
  "is_video raw_item \<longleftrightarrow> py_path raw_item [''id'', ''kind''] = Inr (PStr ''youtube#video'')"

definition item_record :: "pyval \<Rightarrow> video_record \<Rightarrow> bool" where
  "item_record raw_item r \<longleftrightarrow>
     py_path raw_item [''id'', ''videoId''] = Inr (video_id r) \<and>
     py_path raw_item [''snippet'', ''publishedAt''] = Inr (datetime r) \<and>
     py_path raw_item [''snippet'', ''title''] = Inr (title r)"

text \<open>An item as the search API documents it: it has a kind, and a video has the three
  fields.\<close>

definition wf_item :: "pyval \<Rightarrow> bool" where
  "wf_item raw_item \<longleftrightarrow>
     \<not> isl (py_path raw_item [''id'', ''kind'']) \<and>
     (is_video raw_item \<longrightarrow>
        \<not> isl (py_path raw_item [''id'', ''videoId'']) \<and>
        \<not> isl (py_path raw_item [''snippet'', ''publishedAt'']) \<and>
        \<not> isl (py_path raw_item [''snippet'', ''title'']))"

definition search_page :: "pyval list \<Rightarrow> (string \<times> pyval) list \<Rightarrow> response" where
  "search_page raw_items extra = Response (Some (PDict ((''items'', PList raw_items) # extra)))"

definition video_item :: "string \<Rightarrow> string \<Rightarrow> string \<Rightarrow> pyval" where
  "video_item vid published t =
     PDict [(''kind'', PStr ''youtube#searchResult''),
            (''id'', PDict [(''kind'', PStr ''youtube#video''), (''videoId'', PStr vid)]),
            (''snippet'', PDict [(''publishedAt'', PStr published), (''title'', PStr t)])]"

definition channel_item :: "string \<Rightarrow> pyval" where
  "channel_item cid =
     PDict [(''kind'', PStr ''youtube#searchResult''),
            (''id'', PDict [(''kind'', PStr ''youtube#channel''), (''channelId'', PStr cid)])]"

definition playlist_item :: "string \<Rightarrow> pyval" where
  "playlist_item pid =
     PDict [(''kind'', PStr ''youtube#searchResult''),
            (''id'', PDict [(''kind'', PStr ''youtube#playlist''), (''playlistId'', PStr pid)]),
            (''snippet'', PDict [(''publishedAt'', PStr ''2023-05-05T00:00:00Z''), (''title'', PStr ''a playlist'')])]"

definition mixed_items :: "pyval list" where
  "mixed_items =
     [channel_item ''UCa9gErQ9AE5jT2DZLjXBIdA'',
      video_item ''v1'' ''2024-01-02T00:00:00Z'' ''one'',
      playlist_item ''PL1'',
      video_item ''v2'' ''2024-01-01T00:00:00Z'' ''two'']"

definition mixed_page :: response where
  "mixed_page = search_page mixed_items [(''nextPageToken'', PStr ''CAUQAA'')]"

section \<open>Video Lister: getVideoIDs\<close>

text \<open>
  \<^verbatim>\<open>page_token != 0\<close>. The token is \<^verbatim>\<open>None\<close> at the start, later whatever value the body
  holds under \<^verbatim>\<open>nextPageToken\<close>; Python finds \<^verbatim>\<open>0\<close>, \<^verbatim>\<open>0.0\<close> and \<^verbatim>\<open>False\<close> equal to \<^verbatim>\<open>0\<close>.
\<close>

definition py_ne_zero :: "pyval \<Rightarrow> bool" where
  "py_ne_zero v \<longleftrightarrow> v \<noteq> PInt 0 \<and> v \<noteq> PFloat 0 \<and> v \<noteq> PBool False"

text \<open>
  \<^verbatim>\<open>
  try:
      page_token = json.loads(response.text)['nextPageToken']
  except:
      page_token = 0
  \<close>
\<close>

definition next_page_token :: "response \<Rightarrow> pyval" where
  "next_page_token response =
     (case json_loads_text response of
        Inl e \<Rightarrow> PInt 0
      | Inr parsed \<Rightarrow>
          (case py_getitem parsed ''nextPageToken'' of
             Inl e \<Rightarrow> PInt 0
           | Inr token \<Rightarrow> token))"

definition getenv :: "(string \<rightharpoonup> string) \<Rightarrow> string \<Rightarrow> pyval" where
  "getenv environ name = (case environ name of None \<Rightarrow> PNone | Some v \<Rightarrow> PStr v)"

definition search_params :: "pyval \<Rightarrow> pyval \<Rightarrow> pyval" where
  "search_params my_key page_token =
     PDict [(''key'', my_key), (''channelId'', PStr ''UCa9gErQ9AE5jT2DZLjXBIdA''),
            (''part'', PList [PStr ''snippet'', PStr ''id'']), (''order'', PStr ''date''),
            (''maxResults'', PInt 50), (''pageToken'', page_token)]"

text \<open>
  The search API is outside the repository: \<open>requests_get n url params\<close> is what the
  \<open>n\<close>-th request of the run returns or raises when it is made with these arguments, so
  the API may keep state between requests. The \<^verbatim>\<open>while\<close> loop need not end; it is a
  partial function, \<open>None\<close> when it runs forever. The records of a page are added before
  the token is read, so a page that getVideoRecords refuses ends the run with its error.
\<close>

partial_function (option) getVideoIDs_loop ::
  "(nat \<Rightarrow> string \<Rightarrow> pyval \<Rightarrow> py_error + response) \<Rightarrow> pyval \<Rightarrow> nat \<Rightarrow> pyval \<Rightarrow>
   video_record list \<Rightarrow> (py_error + video_record list) option" where
  "getVideoIDs_loop requests_get my_key n page_token video_record_list =
     (if py_ne_zero page_token then
        (case requests_get n ''https://www.googleapis.com/youtube/v3/search''
                (search_params my_key page_token) of
           Inl e \<Rightarrow> Some (Inl e)
         | Inr response \<Rightarrow>
             (case getVideoRecords response of
                Inl e \<Rightarrow> Some (Inl e)
              | Inr recs \<Rightarrow>
                  getVideoIDs_loop requests_get my_key (Suc n) (next_page_token response)
                    (video_record_list @ recs)))
      else Some (Inr video_record_list))"

text \<open>
  \<^verbatim>\<open>pl.DataFrame(video_record_list)\<close>: one column per key of the records, in the order
  the keys were set, one row per record in the order of the list; no record, no column.
  The cells are kept as the values the records hold.
\<close>

definition DataFrame :: "video_record list \<Rightarrow> dataframe" where
  "DataFrame video_record_list =
     (if video_record_list = [] then []
      else [(''video_id'', map video_id video_record_list),
            (''datetime'', map datetime video_record_list),
            (''title'', map title video_record_list)])"

definition getVideoIDs ::
  "(nat \<Rightarrow> string \<Rightarrow> pyval \<Rightarrow> py_error + response) \<Rightarrow> (string \<rightharpoonup> string) \<Rightarrow> files \<Rightarrow>
   (py_error + files) option" where
  "getVideoIDs requests_get environ fs =
     (case getVideoIDs_loop requests_get (getenv environ ''YT_API_KEY'') 0 PNone [] of
        None \<Rightarrow> None
      | Some (Inl e) \<Rightarrow> Some (Inl e)
      | Some (Inr video_record_list) \<Rightarrow>
          Some (Inr (write_parquet fs ''data/video-ids.parquet'' (DataFrame video_record_list))))"

text \<open>A mocked API that serves a finite list of pages in order, whatever it is asked,
  and raises once the list is used up.\<close>

definition mock_get :: "response list \<Rightarrow> nat \<Rightarrow> string \<Rightarrow> pyval \<Rightarrow> py_error + response" where
  "mock_get pages n url params = (if n < length pages then Inr (pages ! n) else Inl StopIteration)"

definition page_records :: "response \<Rightarrow> video_record list" where
  "page_records page = (case getVideoRecords page of Inl e \<Rightarrow> [] | Inr recs \<Rightarrow> recs)"







section \<open>Embedding Generator: createTextEmbeddings\<close>

text \<open>
  Every frame polars holds or reads from a file is rectangular: its columns have one
  length, the height.
\<close>

definition rectangular :: "dataframe \<Rightarrow> bool" where
  "rectangular df = list_all (\<lambda>c. length (snd c) = df_len df) df"

text \<open>\<^verbatim>\<open>str(i)\<close> for \<^verbatim>\<open>i\<close> in a \<^verbatim>\<open>range\<close>: the decimal digits of a natural number.\<close>

definition digit_char :: "nat \<Rightarrow> char" where
  "digit_char n = ''0123456789'' ! n"

fun str_nat :: "nat \<Rightarrow> string" where
  "str_nat n = (if n < 10 then [digit_char n] else str_nat (n div 10) @ [digit_char (n mod 10)])"

declare str_nat.simps [simp del]

text \<open>
  A numpy array as far as the stage reads it: its \<^verbatim>\<open>shape\<close> and, when it has two axes,
  its rows. \<^verbatim>\<open>embedding_arr.shape[1]\<close> raises on an array with fewer than two axes.
\<close>

datatype ndarray = NDArray (shape: "nat list") (array_rows: "real list list")

definition shape_index :: "ndarray \<Rightarrow> nat \<Rightarrow> py_error + nat" where
  "shape_index a i = (if i < length (shape a) then Inr (shape a ! i) else Inl IndexError)"

text \<open>
  \<^verbatim>\<open>{column_name+'_embedding-'+str(i): float for i in range(d)}\<close>: the keys of the
  dictionary in the order in which they were first set; a key set again keeps its place.
\<close>

definition dict_keys :: "string list \<Rightarrow> string list" where
  "dict_keys ks = rev (remdups (rev ks))"

definition embedding_column_name :: "string \<Rightarrow> nat \<Rightarrow> string" where
  "embedding_column_name column_name i = column_name @ ''_embedding-'' @ str_nat i"

definition schema_dict :: "string \<Rightarrow> nat \<Rightarrow> string list" where
  "schema_dict column_name d = dict_keys (map (embedding_column_name column_name) [0..<d])"

text \<open>
  \<^verbatim>\<open>pl.DataFrame(embedding_arr, schema=schema_dict)\<close> with every column a float. polars
  takes an array of two axes only. When the schema has as many names as the second axis
  is long, the first axis is read as the rows; when it has as many names as the first
  axis only, the first axis is read as the columns; any other number of names is
  refused. The rows of an array that numpy built agree with its shape; an array that
  does not is refused here.
\<close>

definition DataFrame_of_array :: "ndarray \<Rightarrow> string list \<Rightarrow> py_error + dataframe" where
  "DataFrame_of_array a schema =
     (case shape a of
        [n, d] \<Rightarrow>
          if length (array_rows a) \<noteq> n \<or> \<not> list_all (\<lambda>r. length r = d) (array_rows a)
          then Inl ShapeError
          else if length schema = d
          then Inr (map (\<lambda>j. (schema ! j, map (\<lambda>r. PFloat (r ! j)) (array_rows a))) [0..<d])
          else if length schema = n
          then Inr (map (\<lambda>i. (schema ! i, map PFloat (array_rows a ! i))) [0..<n])
          else Inl ShapeError
      | _ \<Rightarrow> Inl ValueError)"

text \<open>
  \<^verbatim>\<open>pl.concat([df, df_embedding], how='horizontal')\<close>: the columns of the second frame
  are put to the right of those of the first. A column name that occurs twice is refused;
  when the heights differ the shorter columns are filled with nulls.
\<close>

definition pad_column :: "nat \<Rightarrow> pyval list \<Rightarrow> pyval list" where
  "pad_column h col = col @ replicate (h - length col) PNone"

definition concat_horizontal :: "dataframe \<Rightarrow> dataframe \<Rightarrow> py_error + dataframe" where
  "concat_horizontal df1 df2 =
     (if \<not> distinct (map fst (df1 @ df2)) then Inl DuplicateError
      else Inr (map (\<lambda>c. (fst c, pad_column (max (df_len df1) (df_len df2)) (snd c))) (df1 @ df2)))"

text \<open>
  The sentence-embedding model is outside the repository. \<open>SentenceTransformer name\<close>
  loads it or raises; a loaded model is its \<^verbatim>\<open>encode\<close>: \<open>encode n sentences\<close> is what the
  \<open>n\<close>-th call returns or raises on this list of cells.
\<close>

type_synonym sentence_model = "nat \<Rightarrow> pyval list \<Rightarrow> py_error + ndarray"

fun createTextEmbeddings_loop ::
  "sentence_model \<Rightarrow> nat \<Rightarrow> string list \<Rightarrow> dataframe \<Rightarrow> py_error + dataframe" where
  "createTextEmbeddings_loop encode n [] df = Inr df"
| "createTextEmbeddings_loop encode n (column_name # column_name_list) df =
     (case df_getitem df column_name of
        Inl e \<Rightarrow> Inl e
      | Inr sentences \<Rightarrow>
          (case encode n sentences of
             Inl e \<Rightarrow> Inl e
           | Inr embedding_arr \<Rightarrow>
               (case shape_index embedding_arr 1 of
                  Inl e \<Rightarrow> Inl e
                | Inr d \<Rightarrow>
                    (case DataFrame_of_array embedding_arr (schema_dict column_name d) of
                       Inl e \<Rightarrow> Inl e
                     | Inr df_embedding \<Rightarrow>
                         (case concat_horizontal df df_embedding of
                            Inl e \<Rightarrow> Inl e
                          | Inr df' \<Rightarrow>
                              createTextEmbeddings_loop encode (Suc n) column_name_list df')))))"

definition createTextEmbeddings ::
  "(string \<Rightarrow> py_error + sentence_model) \<Rightarrow> files \<Rightarrow> py_error + files" where
  "createTextEmbeddings SentenceTransformer fs =
     (case read_parquet fs ''data/video-transcripts.parquet'' of
        Inl e \<Rightarrow> Inl e
      | Inr df \<Rightarrow>
          (case SentenceTransformer ''all-MiniLM-L6-v2'' of
             Inl e \<Rightarrow> Inl e
           | Inr encode \<Rightarrow>
               (case createTextEmbeddings_loop encode 0 [''title'', ''transcript''] df of
                  Inl e \<Rightarrow> Inl e
                | Inr df' \<Rightarrow> Inr (write_parquet fs ''data/video-index.parquet'' df'))))"

text \<open>What the model promises: one embedding of width \<open>d\<close> for every sentence it is given.\<close>

definition embeds_each :: "sentence_model \<Rightarrow> nat \<Rightarrow> bool" where
  "embeds_each encode d \<longleftrightarrow>
     (\<forall>n sentences a. encode n sentences = Inr a \<longrightarrow> shape a = [length sentences, d])"

text \<open>A model of width 2: the length of the sentence and a constant.\<close>

fun toy_embedding :: "pyval \<Rightarrow> real list" where
  "toy_embedding (PStr s) = [real (length s), 1]"
| "toy_embedding c = [0, 0]"

definition toy_model :: sentence_model where
  "toy_model n sentences = Inr (NDArray [length sentences, 2] (map toy_embedding sentences))"

text \<open>An array of \<open>n\<close> rows of width \<open>d\<close>, as numpy builds it.\<close>

definition matrix :: "ndarray \<Rightarrow> nat \<Rightarrow> nat \<Rightarrow> bool" where
  "matrix a n d \<longleftrightarrow>
     shape a = [n, d] \<and> length (array_rows a) = n \<and> list_all (\<lambda>r. length r = d) (array_rows a)"

text \<open>The three videos with their transcripts, and the index the model of width 2 gives.\<close>

definition three_transcripts :: dataframe where
  "three_transcripts =
     [(''video_id'', [PStr ''v1'', PStr ''v2'', PStr ''v3'']),
      (''datetime'', [PDatetime 1704067200, PDatetime 1704153600, PDatetime 1704240000]),
      (''title'', [PStr ''one'', PStr ''two'', PStr ''three'']),
      (''transcript'', [PStr ''a b'', PStr ''n/a'', PStr ''c''])]"

definition three_index :: dataframe where
  "three_index =
     three_transcripts @
     [(''title_embedding-0'', [PFloat 3, PFloat 3, PFloat 5]),
      (''title_embedding-1'', [PFloat 1, PFloat 1, PFloat 1]),
      (''transcript_embedding-0'', [PFloat 3, PFloat 3, PFloat 1]),
      (''transcript_embedding-1'', [PFloat 1, PFloat 1, PFloat 1])]"

section \<open>Data Transformer: setDatatypes and transformData\<close>

text \<open>
  \<^verbatim>\<open>pl.col('datetime').cast(pl.Datetime)\<close>: the cast converts the column cell by cell and
  raises when a cell cannot be converted; a null stays null. How polars reads one cell as
  a point in time is outside the repository: \<open>to_datetime\<close> is that conversion.
\<close>

fun series_cast :: "(pyval \<Rightarrow> py_error + pyval) \<Rightarrow> pyval list \<Rightarrow> py_error + pyval list" where
  "series_cast to_datetime [] = Inr []"
| "series_cast to_datetime (c # cs) =
     (case (if c = PNone then Inr PNone else to_datetime c) of
        Inl e \<Rightarrow> Inl e
      | Inr c' \<Rightarrow>
          (case series_cast to_datetime cs of
             Inl e \<Rightarrow> Inl e
           | Inr cs' \<Rightarrow> Inr (c' # cs')))"

definition setDatatypes :: "(pyval \<Rightarrow> py_error + pyval) \<Rightarrow> dataframe \<Rightarrow> py_error + dataframe" where
  "setDatatypes to_datetime df =
     (case df_getitem df ''datetime'' of
        Inl e \<Rightarrow> Inl e
      | Inr col \<Rightarrow>
          (case series_cast to_datetime col of
             Inl e \<Rightarrow> Inl e
           | Inr col' \<Rightarrow> with_columns df ''datetime'' col'))"

definition transformData :: "(pyval \<Rightarrow> py_error + pyval) \<Rightarrow> files \<Rightarrow> py_error + files" where
  "transformData to_datetime fs =
     (case read_parquet fs ''data/video-transcripts.parquet'' of
        Inl e \<Rightarrow> Inl e
      | Inr df \<Rightarrow>
          (case handleSpecialStrings df of
             Inl e \<Rightarrow> Inl e
           | Inr df1 \<Rightarrow>
               (case setDatatypes to_datetime df1 of
                  Inl e \<Rightarrow> Inl e
                | Inr df2 \<Rightarrow> Inr (write_parquet fs ''data/video-transcripts.parquet'' df2))))"

section \<open>The pipeline\<close>

text \<open>
  \<^verbatim>\<open>data_pipeline.py\<close>: the four stages in order, each reading what the one before wrote;
  an exception in a stage ends the run. The run need not end, because the listing loop
  need not.
\<close>

definition data_pipeline ::
  "(nat \<Rightarrow> string \<Rightarrow> pyval \<Rightarrow> py_error + response) \<Rightarrow> (string \<rightharpoonup> string) \<Rightarrow>
   (nat \<Rightarrow> pyval \<Rightarrow> py_error + pyval) \<Rightarrow> (pyval \<Rightarrow> py_error + pyval) \<Rightarrow>
   (string \<Rightarrow> py_error + sentence_model) \<Rightarrow> files \<Rightarrow> (py_error + files) option" where
  "data_pipeline requests_get environ get_transcript to_datetime SentenceTransformer fs =
     (case getVideoIDs requests_get environ fs of
        None \<Rightarrow> None
      | Some (Inl e) \<Rightarrow> Some (Inl e)
      | Some (Inr fs1) \<Rightarrow>
          (case getVideoTranscripts get_transcript fs1 of
             Inl e \<Rightarrow> Some (Inl e)
           | Inr fs2 \<Rightarrow>
               (case transformData to_datetime fs2 of
                  Inl e \<Rightarrow> Some (Inl e)
                | Inr fs3 \<Rightarrow>
                    (case createTextEmbeddings SentenceTransformer fs3 of
                       Inl e \<Rightarrow> Some (Inl e)
                     | Inr fs4 \<Rightarrow> Some (Inr fs4)))))"

text \<open>One page that lists the three videos, and a calendar for their dates.\<close>

definition three_videos_page :: response where
  "three_videos_page =
     search_page [video_item ''v1'' ''2024-01-01T00:00:00Z'' ''one'',
                  video_item ''v2'' ''2024-01-02T00:00:00Z'' ''two'',
                  video_item ''v3'' ''2024-01-03T00:00:00Z'' ''three''] []"

fun calendar :: "pyval \<Rightarrow> py_error + pyval" where
  "calendar (PStr s) =
     (case map_of [(''2024-01-01T00:00:00Z'', 1704067200), (''2024-01-02T00:00:00Z'', 1704153600),
                   (''2024-01-03T00:00:00Z'', 1704240000)] s of
        None \<Rightarrow> Inl ComputeError
      | Some t \<Rightarrow> Inr (PDatetime t))"
| "calendar (PDatetime t) = Inr (PDatetime t)"
| "calendar c = Inl ComputeError"

text \<open>A table keeps the rows of another: the same height and the same \<open>video_id\<close> column,
  cell by cell.\<close>

definition keeps_rows :: "dataframe \<Rightarrow> dataframe \<Rightarrow> bool" where
  "keeps_rows df df' \<longleftrightarrow>
     rectangular df' \<and> df_len df' = df_len df \<and>
     df_getitem df' ''video_id'' = df_getitem df ''video_id''"

text \<open>The three videos as the transcript stage leaves them.\<close>

definition three_fetched :: dataframe where
  "three_fetched = three_ids @ [(''transcript'', [PStr ''a b'', PStr ''n/a'', PStr ''c''])]"

section \<open>Properties of the Transcript Fetcher\<close>

lemma the_strs_map_PStr: "the_strs (map PStr ts) = Inr ts"
  by (induction ts) simp_all

lemma py_join_map_PStr: "py_join sep (map PStr ts) = Inr (PStr (join_strs sep ts))"
  by (simp add: py_join_def the_strs_map_PStr)

lemma text_list_loop_fragments:
  assumes "list_all2 fragment_text frs ts"
    and "\<forall>i \<in> set is. i < length frs"
  shows "text_list_loop (PList frs) is = Inr (map (\<lambda>i. PStr (ts ! i)) is)"
  using assms(2)
proof (induction "is")
  case Nil
  then show ?case by simp
next
  case (Cons i js)
  from Cons.prems have i: "i < length frs" by simp
  with assms(1) have "fragment_text (frs ! i) (ts ! i)"
    by (simp add: list_all2_nthD)
  then have "py_getitem (frs ! i) ''text'' = Inr (PStr (ts ! i))"
    by (simp add: fragment_text_def)
  moreover from Cons have "text_list_loop (PList frs) js = Inr (map (\<lambda>i. PStr (ts ! i)) js)"
    by simp
  ultimately show ?case using i by simp
qed

lemma extractTranscriptText_fragments:
  assumes "list_all2 fragment_text frs ts"
  shows "extractTranscriptText (PList frs) = Inr (PStr (join_strs '' '' ts))"
proof -
  have len: "length ts = length frs"
    using assms by (simp add: list_all2_lengthD)
  have "text_list_loop (PList frs) [0..<length frs] = Inr (map (\<lambda>i. PStr (ts ! i)) [0..<length frs])"
    using assms by (rule text_list_loop_fragments) simp
  also have "map (\<lambda>i. PStr (ts ! i)) [0..<length frs] = map PStr (map ((!) ts) [0..<length ts])"
    using len by simp
  also have "\<dots> = map PStr ts"
    by (simp only: map_nth)
  finally show ?thesis
    by (simp add: extractTranscriptText_def py_join_map_PStr)
qed

lemma join_strs_sep_concat:
  "ts \<noteq> [] \<Longrightarrow> join_strs sep ts @ sep = concat (map (\<lambda>t. t @ sep) ts)"
  by (induction sep ts rule: join_strs.induct) simp_all

text \<open>
  C9. For every ordered list of caption fragments whose \<open>text\<close> entries are the strings
  \<open>ts\<close>, extractTranscriptText returns those strings in the same order with exactly one
  space between neighbours: followed by one more space, the result is each text followed
  by a space. The fragments \<open>[{text: hello}, {text: world}]\<close> give \<open>hello world\<close>.
\<close>

theorem extractTranscriptText_joins_fragments:
  "(list_all2 fragment_text frs ts \<longrightarrow>
      extractTranscriptText (PList frs) = Inr (PStr (join_strs '' '' ts)) \<and>
      (ts \<noteq> [] \<longrightarrow> join_strs '' '' ts @ '' '' = concat (map (\<lambda>t. t @ '' '') ts)))
   \<and> extractTranscriptText
        (PList [PDict [(''text'', PStr ''hello'')], PDict [(''text'', PStr ''world'')]])
      = Inr (PStr ''hello world'')"
proof -
  have "extractTranscriptText
        (PList [PDict [(''text'', PStr ''hello'')], PDict [(''text'', PStr ''world'')]])
      = Inr (PStr ''hello world'')"
    by (simp add: extractTranscriptText_def py_join_def upt_rec)
  then show ?thesis
    using extractTranscriptText_fragments join_strs_sep_concat by blast
qed

theorem extractTranscriptText_joins_fragments_witness:
  "list_all2 fragment_text
     [PDict [(''text'', PStr ''a''), (''start'', PFloat 0)], PDict [(''duration'', PInt 2), (''text'', PStr ''b c'')]]
     [''a'', ''b c'']
   \<and> extractTranscriptText
       (PList [PDict [(''text'', PStr ''a''), (''start'', PFloat 0)],
               PDict [(''duration'', PInt 2), (''text'', PStr ''b c'')]])
     = Inr (PStr ''a b c'')
   \<and> ''a b c'' @ '' '' = concat (map (\<lambda>t. t @ '' '') [''a'', ''b c''])"
proof -
  have h: "list_all2 fragment_text
     [PDict [(''text'', PStr ''a''), (''start'', PFloat 0)], PDict [(''duration'', PInt 2), (''text'', PStr ''b c'')]]
     [''a'', ''b c'']"
    by (simp add: fragment_text_def)
  from h extractTranscriptText_joins_fragments
    [of "[PDict [(''text'', PStr ''a''), (''start'', PFloat 0)], PDict [(''duration'', PInt 2), (''text'', PStr ''b c'')]]"
        "[''a'', ''b c'']"]
  show ?thesis by simp
qed

lemma transcript_text_loop_map:
  "transcript_text_loop g df is acc = acc @ map (transcript_text_of g df) is"
  by (induction "is" arbitrary: acc) simp_all

lemma map_of_set_column_same: "map_of (set_column name col df) name = Some col"
  by (induction df) simp_all

lemma map_of_set_column_other:
  "name' \<noteq> name \<Longrightarrow> map_of (set_column name col df) name' = map_of df name'"
  by (induction df) auto

lemma df_getitem_set_column_same: "df_getitem (set_column name col df) name = Inr col"
  by (simp add: df_getitem_def map_of_set_column_same)

lemma df_getitem_set_column_other:
  "name' \<noteq> name \<Longrightarrow> df_getitem (set_column name col df) name' = df_getitem df name'"
  by (simp add: df_getitem_def map_of_set_column_other)

lemma df_len_set_column:
  "df = [] \<or> length col = df_len df \<Longrightarrow> df_len (set_column name col df) = length col"
  by (cases df) (auto simp: df_len_def)

lemma map_fst_set_column:
  "map fst (set_column name col df) =
     (if name \<in> set (map fst df) then map fst df else map fst df @ [name])"
  by (induction df) auto

lemma getVideoTranscripts_table:
  assumes "fs ''data/video-ids.parquet'' = Some df"
  shows "getVideoTranscripts g fs =
     Inr (fs(''data/video-transcripts.parquet'' \<mapsto>
        set_column ''transcript'' (map (transcript_text_of g df) [0..<df_len df]) df))"
  using assms
  by (simp add: getVideoTranscripts_def read_parquet_def write_parquet_def with_columns_def
      transcript_text_loop_map)

lemma transcript_text_of_raises:
  assumes "df_getitem df ''video_id'' = Inr ids" and "i < length ids"
    and "g i (ids ! i) = Inl e"
  shows "transcript_text_of g df i = PStr ''n/a''"
  using assms by (simp add: transcript_text_of_def series_getitem_def)

lemma transcript_text_of_returns:
  assumes "df_getitem df ''video_id'' = Inr ids" and "i < length ids"
    and "g i (ids ! i) = Inr t" and "extractTranscriptText t = Inr text"
  shows "transcript_text_of g df i = text"
  using assms by (simp add: transcript_text_of_def series_getitem_def)

text \<open>
  C3. Whatever the transcript service does, the Transcript Fetcher returns normally and
  writes one transcript per row of the video-identity table. In a row whose service call
  raises, whatever the error, the transcript is exactly \<open>n/a\<close>; every other row,
  before or after it, still holds the text extracted from its own transcript.
\<close>

theorem getVideoTranscripts_sentinel_on_error:
  assumes "fs ''data/video-ids.parquet'' = Some df"
    and "df_getitem df ''video_id'' = Inr ids"
    and "length ids = df_len df"
  shows "\<exists>df' ts.
     getVideoTranscripts get_transcript fs = Inr (fs(''data/video-transcripts.parquet'' \<mapsto> df')) \<and>
     df_getitem df' ''transcript'' = Inr ts \<and>
     length ts = length ids \<and>
     (\<forall>i < length ids.
        (\<forall>e. get_transcript i (ids ! i) = Inl e \<longrightarrow> ts ! i = PStr ''n/a'') \<and>
        (\<forall>t text. get_transcript i (ids ! i) = Inr t \<and> extractTranscriptText t = Inr text
           \<longrightarrow> ts ! i = text))"
proof -
  let ?ts = "map (transcript_text_of get_transcript df) [0..<df_len df]"
  let ?df' = "set_column ''transcript'' ?ts df"
  have "getVideoTranscripts get_transcript fs = Inr (fs(''data/video-transcripts.parquet'' \<mapsto> ?df'))"
    using assms(1) by (rule getVideoTranscripts_table)
  moreover have "df_getitem ?df' ''transcript'' = Inr ?ts"
    by (rule df_getitem_set_column_same)
  moreover have "length ?ts = length ids"
    using assms(3) by simp
  moreover have "\<forall>i < length ids.
        (\<forall>e. get_transcript i (ids ! i) = Inl e \<longrightarrow> ?ts ! i = PStr ''n/a'') \<and>
        (\<forall>t text. get_transcript i (ids ! i) = Inr t \<and> extractTranscriptText t = Inr text
           \<longrightarrow> ?ts ! i = text)"
    using assms(2,3) transcript_text_of_raises transcript_text_of_returns by simp
  ultimately show ?thesis by blast
qed

lemma df_getitem_three_ids:
  "df_getitem three_ids ''video_id'' = Inr [PStr ''v1'', PStr ''v2'', PStr ''v3'']"
  by (simp add: df_getitem_def three_ids_def)

lemma df_len_three_ids: "df_len three_ids = 3"
  by (simp add: df_len_def three_ids_def)

theorem getVideoTranscripts_sentinel_on_error_witness:
  "[''data/video-ids.parquet'' \<mapsto> three_ids] ''data/video-ids.parquet'' = Some three_ids
   \<and> df_getitem three_ids ''video_id'' = Inr [PStr ''v1'', PStr ''v2'', PStr ''v3'']
   \<and> length [PStr ''v1'', PStr ''v2'', PStr ''v3''] = df_len three_ids
   \<and> flaky_service 1 (PStr ''v2'') = Inl (ExternalError ''TranscriptsDisabled'')
   \<and> (\<exists>df' ts.
        getVideoTranscripts flaky_service [''data/video-ids.parquet'' \<mapsto> three_ids] =
          Inr [''data/video-ids.parquet'' \<mapsto> three_ids, ''data/video-transcripts.parquet'' \<mapsto> df'] \<and>
        df_getitem df' ''transcript'' = Inr ts \<and> length ts = 3 \<and> ts ! 1 = PStr ''n/a'')"
proof -
  let ?fs = "[''data/video-ids.parquet'' \<mapsto> three_ids]"
  let ?ids = "[PStr ''v1'', PStr ''v2'', PStr ''v3'']"
  have a: "?fs ''data/video-ids.parquet'' = Some three_ids" by simp
  have b: "df_getitem three_ids ''video_id'' = Inr ?ids" by (rule df_getitem_three_ids)
  have c: "length ?ids = df_len three_ids" by (simp add: df_len_three_ids)
  have d: "flaky_service 1 (?ids ! 1) = Inl (ExternalError ''TranscriptsDisabled'')"
    by (simp add: flaky_service_def)
  obtain df' ts where
    r: "getVideoTranscripts flaky_service ?fs = Inr (?fs(''data/video-transcripts.parquet'' \<mapsto> df'))"
    and t: "df_getitem df' ''transcript'' = Inr ts" and l: "length ts = length ?ids"
    and i: "\<forall>i < length ?ids.
        (\<forall>e. flaky_service i (?ids ! i) = Inl e \<longrightarrow> ts ! i = PStr ''n/a'') \<and>
        (\<forall>t text. flaky_service i (?ids ! i) = Inr t \<and> extractTranscriptText t = Inr text
           \<longrightarrow> ts ! i = text)"
    using getVideoTranscripts_sentinel_on_error [of ?fs three_ids ?ids flaky_service, OF a b c] by blast
  from i d have "ts ! 1 = PStr ''n/a''" by simp
  with r t l a b c d show ?thesis by auto
qed

text \<open>
  C10. extractTranscriptText returns a string for every list of well-formed fragments,
  and the empty string for the empty list. A row whose service call succeeds with no
  fragments is therefore recorded with the empty transcript, which is not the sentinel.
\<close>

theorem extractTranscriptText_total_empty:
  "extractTranscriptText (PList []) = Inr (PStr [])
   \<and> (list_all2 fragment_text frs ts \<longrightarrow> (\<exists>s. extractTranscriptText (PList frs) = Inr (PStr s)))
   \<and> (df_getitem df ''video_id'' = Inr ids \<and> i < length ids \<and>
        get_transcript i (ids ! i) = Inr (PList [])
        \<longrightarrow> transcript_text_of get_transcript df i = PStr [] \<and>
            transcript_text_of get_transcript df i \<noteq> PStr ''n/a'')"
proof -
  have e: "extractTranscriptText (PList []) = Inr (PStr [])"
    by (simp add: extractTranscriptText_def py_join_def)
  have "\<exists>s. extractTranscriptText (PList frs) = Inr (PStr s)" if "list_all2 fragment_text frs ts"
    using extractTranscriptText_fragments [OF that] by blast
  moreover have "transcript_text_of get_transcript df i = PStr []"
    if "df_getitem df ''video_id'' = Inr ids" "i < length ids"
       "get_transcript i (ids ! i) = Inr (PList [])"
    using that e by (simp add: transcript_text_of_returns)
  ultimately show ?thesis using e by auto
qed

theorem extractTranscriptText_total_empty_witness:
  "list_all2 fragment_text [PDict [(''text'', PStr ''x'')]] [''x'']
   \<and> (\<exists>s. extractTranscriptText (PList [PDict [(''text'', PStr ''x'')]]) = Inr (PStr s))
   \<and> df_getitem three_ids ''video_id'' = Inr [PStr ''v1'', PStr ''v2'', PStr ''v3'']
   \<and> transcript_text_of (\<lambda>i vid. Inr (PList [])) three_ids 1 = PStr []"
proof -
  have a: "list_all2 fragment_text [PDict [(''text'', PStr ''x'')]] [''x'']"
    by (simp add: fragment_text_def)
  have b: "df_getitem three_ids ''video_id'' = Inr [PStr ''v1'', PStr ''v2'', PStr ''v3'']"
    by (rule df_getitem_three_ids)
  have c: "(1::nat) < length [PStr ''v1'', PStr ''v2'', PStr ''v3'']" by simp
  from a b c extractTranscriptText_total_empty
    [of "[PDict [(''text'', PStr ''x'')]]" "[''x'']" three_ids "[PStr ''v1'', PStr ''v2'', PStr ''v3'']" 1
        "\<lambda>i vid. Inr (PList [])"]
  show ?thesis by simp
qed

section \<open>Properties of the Data Transformer\<close>

lemma str_replace_absent: "\<not> sublist p s \<Longrightarrow> str_replace p v s = s"
  by (induction s) (auto simp: sublist_Cons_right)

lemma series_str_replace_text:
  "list_all text_cell col \<Longrightarrow> series_str_replace p v col = Inr (map (cell_replace p v) col)"
  by (induction p v col rule: series_str_replace.induct) simp_all

lemma series_str_replace_InrD:
  "series_str_replace p v col = Inr col' \<Longrightarrow> list_all text_cell col"
  by (induction p v col arbitrary: col' rule: series_str_replace.induct)
     (auto split: sum.splits)

lemma text_cell_cell_replace [simp]: "text_cell (cell_replace p v c) = text_cell c"
  by (cases c) simp_all

lemma df_getitem_Inr_iff: "df_getitem df name = Inr col \<longleftrightarrow> map_of df name = Some col"
  by (simp add: df_getitem_def split: option.splits)

lemma df_getitem_nonempty: "df_getitem df name = Inr col \<Longrightarrow> df \<noteq> []"
  by (auto simp: df_getitem_Inr_iff)

lemma df_getitem_name: "df_getitem df name = Inr col \<Longrightarrow> name \<in> set (map fst df)"
  by (auto simp: df_getitem_Inr_iff dest: map_of_SomeD intro: rev_image_eqI)

lemma df_len_set_column_keep:
  "df \<noteq> [] \<Longrightarrow> length col = df_len df \<Longrightarrow> df_len (set_column name col df) = df_len df"
  by (cases df) (auto simp: df_len_def)

lemma set_column_same: "map_of df name = Some col \<Longrightarrow> set_column name col df = df"
  by (induction df) (auto split: if_splits)

lemma replace_in_column_iff:
  "replace_in_column name i df = Inr df' \<longleftrightarrow>
     (\<exists>col. text_column df name col \<and>
        df' = set_column name
                (map (cell_replace (special_strings ! i) (special_string_replacements ! i)) col) df)"
proof
  assume a: "replace_in_column name i df = Inr df'"
  then obtain col where c: "df_getitem df name = Inr col"
    by (auto simp: replace_in_column_def split: sum.splits)
  with a obtain col' where
    r: "series_str_replace (special_strings ! i) (special_string_replacements ! i) col = Inr col'"
    and w: "with_columns df name col' = Inr df'"
    by (auto simp: replace_in_column_def split: sum.splits)
  from r have t: "list_all text_cell col" by (rule series_str_replace_InrD)
  with r have col': "col' = map (cell_replace (special_strings ! i) (special_string_replacements ! i)) col"
    by (simp add: series_str_replace_text)
  from c have "df \<noteq> []" by (rule df_getitem_nonempty)
  with w col' have "length col = df_len df" and "df' = set_column name col' df"
    by (auto simp: with_columns_def split: if_splits)
  with c t col' show "\<exists>col. text_column df name col \<and>
        df' = set_column name
                (map (cell_replace (special_strings ! i) (special_string_replacements ! i)) col) df"
    by (auto simp: text_column_def)
next
  assume "\<exists>col. text_column df name col \<and>
        df' = set_column name
                (map (cell_replace (special_strings ! i) (special_string_replacements ! i)) col) df"
  then show "replace_in_column name i df = Inr df'"
    by (auto simp: text_column_def replace_in_column_def series_str_replace_text with_columns_def)
qed

lemma text_column_set_same:
  assumes "text_column df name col" and "length col' = length col" and "list_all text_cell col'"
  shows "text_column (set_column name col' df) name col'"
  using assms
  by (auto simp: text_column_def df_getitem_set_column_same df_len_set_column_keep
      dest: df_getitem_nonempty)

lemma text_column_set_other:
  assumes "text_column df name' c" and "name' \<noteq> name" and "length col' = df_len df"
  shows "text_column (set_column name col' df) name' c"
  using assms
  by (auto simp: text_column_def df_getitem_set_column_other df_len_set_column_keep
      dest: df_getitem_nonempty)

lemma handleSpecialStrings_loop_columns:
  assumes "text_column df ''title'' ts" and "text_column df ''transcript'' rs"
  shows "\<exists>df'. handleSpecialStrings_loop is df = Inr df' \<and>
     text_column df' ''title''
       (map (fold (\<lambda>i. cell_replace (special_strings ! i) (special_string_replacements ! i)) is) ts) \<and>
     text_column df' ''transcript''
       (map (fold (\<lambda>i. cell_replace (special_strings ! i) (special_string_replacements ! i)) is) rs) \<and>
     map fst df' = map fst df \<and>
     (\<forall>n. n \<noteq> ''title'' \<and> n \<noteq> ''transcript'' \<longrightarrow> df_getitem df' n = df_getitem df n)"
  using assms
proof (induction "is" arbitrary: df ts rs)
  case Nil
  then show ?case by simp
next
  case (Cons i js)
  let ?f = "cell_replace (special_strings ! i) (special_string_replacements ! i)"
  let ?df1 = "set_column ''title'' (map ?f ts) df"
  let ?df2 = "set_column ''transcript'' (map ?f rs) ?df1"
  have len_ts: "length ts = df_len df" and len_rs: "length rs = df_len df"
    using Cons.prems by (simp_all add: text_column_def)
  have s1: "replace_in_column ''title'' i df = Inr ?df1"
    using Cons.prems(1) by (auto simp: replace_in_column_iff)
  have tc: "list_all text_cell ts" "list_all text_cell rs"
    using Cons.prems by (simp_all add: text_column_def)
  have t1: "text_column ?df1 ''title'' (map ?f ts)"
    using tc by (intro text_column_set_same [OF Cons.prems(1)]) (simp_all add: list_all_iff)
  have r1: "text_column ?df1 ''transcript'' rs"
    using Cons.prems(2) by (rule text_column_set_other) (simp_all add: len_ts)
  have len1: "df_len ?df1 = df_len df"
    using t1 len_ts by (simp add: text_column_def)
  have s2: "replace_in_column ''transcript'' i ?df1 = Inr ?df2"
    using r1 by (auto simp: replace_in_column_iff)
  have r2: "text_column ?df2 ''transcript'' (map ?f rs)"
    using tc by (intro text_column_set_same [OF r1]) (simp_all add: list_all_iff)
  have t2: "text_column ?df2 ''title'' (map ?f ts)"
    using t1 by (rule text_column_set_other) (simp_all add: len1 len_rs)
  have names: "map fst ?df2 = map fst df"
    using Cons.prems r1
    by (simp add: map_fst_set_column text_column_def df_getitem_name del: set_map)
  have others: "\<forall>n. n \<noteq> ''title'' \<and> n \<noteq> ''transcript'' \<longrightarrow> df_getitem ?df2 n = df_getitem df n"
    by (simp add: df_getitem_set_column_other)
  from Cons.IH [OF t2 r2] obtain df' where
    l: "handleSpecialStrings_loop js ?df2 = Inr df'"
    and a: "text_column df' ''title''
       (map (fold (\<lambda>i. cell_replace (special_strings ! i) (special_string_replacements ! i)) js) (map ?f ts))"
    and b: "text_column df' ''transcript''
       (map (fold (\<lambda>i. cell_replace (special_strings ! i) (special_string_replacements ! i)) js) (map ?f rs))"
    and c: "map fst df' = map fst ?df2"
    and d: "\<forall>n. n \<noteq> ''title'' \<and> n \<noteq> ''transcript'' \<longrightarrow> df_getitem df' n = df_getitem ?df2 n"
    by blast
  have "handleSpecialStrings_loop (i # js) df = Inr df'"
    using s1 s2 l by simp
  moreover from a b have "text_column df' ''title''
       (map (fold (\<lambda>i. cell_replace (special_strings ! i) (special_string_replacements ! i)) (i # js)) ts)"
    and "text_column df' ''transcript''
       (map (fold (\<lambda>i. cell_replace (special_strings ! i) (special_string_replacements ! i)) (i # js)) rs)"
    by (simp_all add: comp_def)
  moreover have "map fst df' = map fst df" using c names by simp
  moreover have "\<forall>n. n \<noteq> ''title'' \<and> n \<noteq> ''transcript'' \<longrightarrow> df_getitem df' n = df_getitem df n"
    using d others by simp
  ultimately show ?case by blast
qed

lemma fold_cell_replace_cleaned:
  "fold (\<lambda>i. cell_replace (special_strings ! i) (special_string_replacements ! i))
     [0..<length special_strings] = cleaned_cell"
proof
  fix c
  show "fold (\<lambda>i. cell_replace (special_strings ! i) (special_string_replacements ! i))
     [0..<length special_strings] c = cleaned_cell c"
    by (cases c)
       (simp_all add: special_strings_def special_string_replacements_def cleaned_def upt_rec)
qed

lemma handleSpecialStrings_columns:
  assumes "text_column df ''title'' ts" and "text_column df ''transcript'' rs"
  shows "\<exists>df'. handleSpecialStrings df = Inr df' \<and>
     text_column df' ''title'' (map cleaned_cell ts) \<and>
     text_column df' ''transcript'' (map cleaned_cell rs) \<and>
     map fst df' = map fst df \<and>
     (\<forall>n. n \<noteq> ''title'' \<and> n \<noteq> ''transcript'' \<longrightarrow> df_getitem df' n = df_getitem df n)"
  using handleSpecialStrings_loop_columns [OF assms, of "[0..<length special_strings]"]
  by (simp add: handleSpecialStrings_def fold_cell_replace_cleaned)

lemma handleSpecialStrings_InrD:
  assumes "handleSpecialStrings df = Inr df1"
  shows "\<exists>ts rs. text_column df ''title'' ts \<and> text_column df ''transcript'' rs"
proof -
  let ?f = "cell_replace (special_strings ! 0) (special_string_replacements ! 0)"
  have "[0..<length special_strings] = 0 # [1..<length special_strings]"
    by (simp add: special_strings_def upt_rec)
  with assms obtain d1 d2 where a: "replace_in_column ''title'' 0 df = Inr d1"
    and b: "replace_in_column ''transcript'' 0 d1 = Inr d2"
    by (auto simp: handleSpecialStrings_def split: sum.splits)
  from a obtain ts where ts: "text_column df ''title'' ts" and d1: "d1 = set_column ''title'' (map ?f ts) df"
    by (auto simp: replace_in_column_iff)
  from b obtain rs where rs: "text_column d1 ''transcript'' rs"
    by (auto simp: replace_in_column_iff)
  have ne: "df \<noteq> []" and len: "length ts = df_len df"
    using ts by (auto simp: text_column_def dest: df_getitem_nonempty)
  have "df_getitem df ''transcript'' = Inr rs"
    using rs d1 by (simp add: text_column_def df_getitem_set_column_other)
  moreover have "df_len d1 = df_len df"
    using ne len d1 by (simp add: df_len_set_column_keep)
  ultimately have "text_column df ''transcript'' rs"
    using rs by (simp add: text_column_def)
  with ts show ?thesis by blast
qed

lemma cell_replace_free:
  "special_free_cell c \<Longrightarrow> i < length special_strings \<Longrightarrow>
   cell_replace (special_strings ! i) v c = c"
  by (cases c) (simp_all add: special_free_def list_all_length str_replace_absent)

lemma replace_in_column_free:
  assumes "text_column df name col" and "list_all special_free_cell col"
    and "i < length special_strings"
  shows "replace_in_column name i df = Inr df"
proof -
  have "map (cell_replace (special_strings ! i) (special_string_replacements ! i)) col = col"
    using assms(2,3) by (simp add: map_idI list_all_iff cell_replace_free)
  moreover have "set_column name col df = df"
    using assms(1) by (simp add: text_column_def df_getitem_Inr_iff set_column_same)
  ultimately show ?thesis
    using assms(1) by (auto simp: replace_in_column_iff)
qed

lemma handleSpecialStrings_loop_free:
  assumes "text_column df ''title'' ts" and "list_all special_free_cell ts"
    and "text_column df ''transcript'' rs" and "list_all special_free_cell rs"
    and "\<forall>i \<in> set is. i < length special_strings"
  shows "handleSpecialStrings_loop is df = Inr df"
  using assms(5)
proof (induction "is")
  case Nil
  then show ?case by simp
next
  case (Cons i js)
  then have i: "i < length special_strings" by simp
  have "replace_in_column ''title'' i df = Inr df"
    using assms(1,2) i by (rule replace_in_column_free)
  moreover have "replace_in_column ''transcript'' i df = Inr df"
    using assms(3,4) i by (rule replace_in_column_free)
  moreover have "handleSpecialStrings_loop js df = Inr df"
    using Cons by simp
  ultimately show ?case by simp
qed

lemma handleSpecialStrings_free:
  assumes "text_column df ''title'' ts" and "text_column df ''transcript'' rs"
    and "special_free_column df ''title''" and "special_free_column df ''transcript''"
  shows "handleSpecialStrings df = Inr df"
proof -
  have "list_all special_free_cell ts" "list_all special_free_cell rs"
    using assms by (simp_all add: special_free_column_def text_column_def)
  with assms(1,2) show ?thesis
    unfolding handleSpecialStrings_def
    by (intro handleSpecialStrings_loop_free [where ts = ts and rs = rs]) simp_all
qed

lemma handleSpecialStrings_one_row:
  "handleSpecialStrings (one_row t r) = Inr (one_row (cleaned t) (cleaned r))"
  by (simp add: handleSpecialStrings_def one_row_def special_strings_def
      special_string_replacements_def replace_in_column_def df_getitem_def with_columns_def
      df_len_def upt_rec cleaned_def)

lemma cleaned_examples:
  "cleaned ''Shaw&#39;s channel'' = ''Shaw's channel''"
  "cleaned ''sha blog'' = ''Shaw blog''"
  "cleaned ''Sha blog &AMP; &#39'' = ''Sha blog &AMP; &#39''"
  "cleaned ''&amp;#39;'' = ''&#39;''"
  "cleaned ''&#39;'' = [CHR 0x27]"
  by (simp_all add: cleaned_def)

text \<open>
  C1. As stated the claim fails: the ampersand replacement can put back the apostrophe
  entity that was searched for before it, so a second pass changes \<open>&amp;#39;\<close> once
  more. What holds: when the title and the transcript that the first pass returns hold
  none of the three searched sequences, a second pass returns the same table.
\<close>

theorem handleSpecialStrings_idempotent_when_clean:
  assumes "handleSpecialStrings df = Inr df1"
    and "special_free_column df1 ''title''"
    and "special_free_column df1 ''transcript''"
  shows "handleSpecialStrings_twice df = handleSpecialStrings df"
proof -
  from assms(1) obtain ts rs
    where "text_column df ''title'' ts" and "text_column df ''transcript'' rs"
    using handleSpecialStrings_InrD by blast
  then obtain df' where "handleSpecialStrings df = Inr df'"
    and "text_column df' ''title'' (map cleaned_cell ts)"
    and "text_column df' ''transcript'' (map cleaned_cell rs)"
    using handleSpecialStrings_columns by blast
  with assms(1) have "text_column df1 ''title'' (map cleaned_cell ts)"
    and "text_column df1 ''transcript'' (map cleaned_cell rs)"
    by simp_all
  then have "handleSpecialStrings df1 = Inr df1"
    using assms(2,3) by (rule handleSpecialStrings_free)
  with assms(1) show ?thesis
    by (simp add: handleSpecialStrings_twice_def)
qed

theorem handleSpecialStrings_idempotent_when_clean_witness:
  "handleSpecialStrings (one_row ''Shaw&#39;s channel'' ''sha blog'')
     = Inr (one_row ''Shaw's channel'' ''Shaw blog'')
   \<and> special_free_column (one_row ''Shaw's channel'' ''Shaw blog'') ''title''
   \<and> special_free_column (one_row ''Shaw's channel'' ''Shaw blog'') ''transcript''
   \<and> handleSpecialStrings_twice (one_row ''Shaw&#39;s channel'' ''sha blog'')
     = Inr (one_row ''Shaw's channel'' ''Shaw blog'')"
proof -
  have a: "handleSpecialStrings (one_row ''Shaw&#39;s channel'' ''sha blog'')
     = Inr (one_row ''Shaw's channel'' ''Shaw blog'')"
    by (simp add: handleSpecialStrings_one_row cleaned_examples)
  have b: "special_free_column (one_row ''Shaw's channel'' ''Shaw blog'') ''title''"
    by (simp add: special_free_column_def one_row_def df_getitem_def special_free_def
        special_strings_def sublist_code)
  have c: "special_free_column (one_row ''Shaw's channel'' ''Shaw blog'') ''transcript''"
    by (simp add: special_free_column_def one_row_def df_getitem_def special_free_def
        special_strings_def sublist_code)
  from handleSpecialStrings_idempotent_when_clean [OF a b c] a b c
  show ?thesis by simp
qed

theorem handleSpecialStrings_twice_differs:
  "handleSpecialStrings (one_row ''&amp;#39;'' ''n/a'') = Inr (one_row ''&#39;'' ''n/a'')
   \<and> handleSpecialStrings_twice (one_row ''&amp;#39;'' ''n/a'') = Inr (one_row [CHR 0x27] ''n/a'')
   \<and> handleSpecialStrings_twice (one_row ''&amp;#39;'' ''n/a'')
       \<noteq> handleSpecialStrings (one_row ''&amp;#39;'' ''n/a'')"
proof -
  have n: "cleaned ''n/a'' = ''n/a''" by (simp add: cleaned_def)
  have a: "handleSpecialStrings (one_row ''&amp;#39;'' ''n/a'') = Inr (one_row ''&#39;'' ''n/a'')"
    by (simp add: handleSpecialStrings_one_row cleaned_examples n)
  have b: "handleSpecialStrings (one_row ''&#39;'' ''n/a'') = Inr (one_row [CHR 0x27] ''n/a'')"
    by (simp add: handleSpecialStrings_one_row cleaned_examples n)
  have c: "one_row [CHR 0x27] ''n/a'' \<noteq> one_row ''&#39;'' ''n/a''"
    by (simp add: one_row_def)
  from a b c show ?thesis by (simp add: handleSpecialStrings_twice_def)
qed

text \<open>
  C6. The claim holds on text in which a searched sequence occurs at most once, and so on
  both of its examples: \<open>Shaw&#39;s channel\<close> becomes \<open>Shaw's channel\<close> and \<open>sha blog\<close>
  becomes \<open>Shaw blog\<close>. The code misses it on text in which a sequence occurs again:
  \<^verbatim>\<open>str.replace\<close> stops after its first match, so the title \<open>a&#39;b&#39;c\<close> keeps
  its second apostrophe entity and the transcript \<open>sha sha &amp; &amp;\<close> keeps its second
  \<open>sha \<close> and its second \<open>&amp;\<close>, where the function is documented to replace the
  special character strings of titles and transcripts.
\<close>

theorem handleSpecialStrings_keeps_repeated_sequence:
  "handleSpecialStrings (one_row ''a&#39;b&#39;c'' ''sha sha &amp; &amp;'')
     = Inr (one_row ''a'b&#39;c'' ''Shaw sha & &amp;'')
   \<and> sublist ''&#39;'' ''a'b&#39;c''
   \<and> sublist ''sha '' ''Shaw sha & &amp;''
   \<and> sublist ''&amp;'' ''Shaw sha & &amp;''
   \<and> handleSpecialStrings (one_row ''a&#39;b&#39;c'' ''sha sha &amp; &amp;'')
       \<noteq> Inr (one_row ''a'b'c'' ''Shaw Shaw & &'')
   \<and> handleSpecialStrings (one_row ''Shaw&#39;s channel'' ''sha blog'')
       = Inr (one_row ''Shaw's channel'' ''Shaw blog'')"
proof -
  have a: "handleSpecialStrings (one_row ''a&#39;b&#39;c'' ''sha sha &amp; &amp;'')
     = Inr (one_row ''a'b&#39;c'' ''Shaw sha & &amp;'')"
    by (simp add: handleSpecialStrings_one_row cleaned_def)
  have b: "sublist ''&#39;'' ''a'b&#39;c''"
    by (simp add: sublist_code)
  have c: "sublist ''sha '' ''Shaw sha & &amp;''"
    by (simp add: sublist_code)
  have d: "sublist ''&amp;'' ''Shaw sha & &amp;''"
    by (simp add: sublist_code)
  have e: "handleSpecialStrings (one_row ''a&#39;b&#39;c'' ''sha sha &amp; &amp;'')
       \<noteq> Inr (one_row ''a'b'c'' ''Shaw Shaw & &'')"
    unfolding a by (simp add: one_row_def)
  have f: "handleSpecialStrings (one_row ''Shaw&#39;s channel'' ''sha blog'')
       = Inr (one_row ''Shaw's channel'' ''Shaw blog'')"
    by (simp add: handleSpecialStrings_one_row cleaned_examples)
  show ?thesis
    by (intro conjI a b c d e f)
qed

section \<open>Properties of the Video Lister\<close>

lemma getVideoRecords_loop_filter:
  "getVideoRecords_loop raw_items acc = Inr recs \<Longrightarrow>
   \<exists>new. recs = acc @ new \<and> list_all2 item_record (filter is_video raw_items) new"
proof (induction raw_items arbitrary: acc)
  case Nil
  then show ?case by simp
next
  case (Cons raw_item rest)
  from Cons.prems obtain kind where k: "py_path raw_item [''id'', ''kind''] = Inr kind"
    by (auto simp del: py_path.simps split: sum.splits)
  show ?case
  proof (cases "kind = PStr ''youtube#video''")
    case False
    with k Cons.prems have "getVideoRecords_loop rest acc = Inr recs"
      by (simp del: py_path.simps)
    moreover from k False have "\<not> is_video raw_item"
      by (simp add: is_video_def del: py_path.simps)
    ultimately show ?thesis using Cons.IH by simp
  next
    case True
    with k have v: "is_video raw_item" by (simp add: is_video_def del: py_path.simps)
    from Cons.prems k True obtain vid published t where
      f: "py_path raw_item [''id'', ''videoId''] = Inr vid"
         "py_path raw_item [''snippet'', ''publishedAt''] = Inr published"
         "py_path raw_item [''snippet'', ''title''] = Inr t"
      and r: "getVideoRecords_loop rest
                (acc @ [\<lparr>video_id = vid, datetime = published, title = t\<rparr>]) = Inr recs"
      by (auto simp del: py_path.simps split: sum.splits)
    from Cons.IH [OF r] obtain new where
      n: "recs = (acc @ [\<lparr>video_id = vid, datetime = published, title = t\<rparr>]) @ new"
      and l: "list_all2 item_record (filter is_video rest) new"
      by blast
    have "item_record raw_item \<lparr>video_id = vid, datetime = published, title = t\<rparr>"
      using f by (simp add: item_record_def del: py_path.simps)
    with l v have "list_all2 item_record (filter is_video (raw_item # rest))
        (\<lparr>video_id = vid, datetime = published, title = t\<rparr> # new)"
      by simp
    with n show ?thesis by auto
  qed
qed

lemma not_isl_Inr: "\<not> isl x \<Longrightarrow> \<exists>y. x = Inr y"
  by (cases x) simp_all

lemma getVideoRecords_loop_total:
  "list_all wf_item raw_items \<Longrightarrow> \<exists>recs. getVideoRecords_loop raw_items acc = Inr recs"
proof (induction raw_items arbitrary: acc)
  case Nil
  then show ?case by simp
next
  case (Cons raw_item rest)
  then have w: "wf_item raw_item" and rest: "list_all wf_item rest" by simp_all
  from w have "\<not> isl (py_path raw_item [''id'', ''kind''])"
    unfolding wf_item_def by (elim conjE)
  then obtain kind where k: "py_path raw_item [''id'', ''kind''] = Inr kind"
    by (auto dest!: not_isl_Inr simp del: py_path.simps)
  show ?case
  proof (cases "kind = PStr ''youtube#video''")
    case False
    with k Cons.IH [OF rest] show ?thesis by (simp del: py_path.simps)
  next
    case True
    with k have "is_video raw_item" by (simp add: is_video_def del: py_path.simps)
    with w have "\<not> isl (py_path raw_item [''id'', ''videoId''])"
      "\<not> isl (py_path raw_item [''snippet'', ''publishedAt''])"
      "\<not> isl (py_path raw_item [''snippet'', ''title''])"
      by (simp_all add: wf_item_def del: py_path.simps)
    then obtain vid published t where
      "py_path raw_item [''id'', ''videoId''] = Inr vid"
      "py_path raw_item [''snippet'', ''publishedAt''] = Inr published"
      "py_path raw_item [''snippet'', ''title''] = Inr t"
      by (auto dest!: not_isl_Inr simp del: py_path.simps)
    with k True Cons.IH [OF rest] show ?thesis by (simp del: py_path.simps)
  qed
qed

lemma getVideoRecords_filter:
  assumes "json_loads_text response = Inr parsed"
    and "py_getitem parsed ''items'' = Inr items"
    and "py_iter items = Inr raw_items"
    and "getVideoRecords response = Inr recs"
  shows "list_all2 item_record (filter is_video raw_items) recs"
proof -
  from assms have "getVideoRecords_loop raw_items [] = Inr recs"
    by (simp add: getVideoRecords_def)
  from getVideoRecords_loop_filter [OF this] show ?thesis by simp
qed

lemma getVideoRecords_total:
  assumes "json_loads_text response = Inr parsed"
    and "py_getitem parsed ''items'' = Inr items"
    and "py_iter items = Inr raw_items"
    and "list_all wf_item raw_items"
  shows "\<exists>recs. getVideoRecords response = Inr recs"
  using assms getVideoRecords_loop_total [of raw_items "[]"]
  by (simp add: getVideoRecords_def)

text \<open>
  C8. For every response page whose body has an iterable \<open>items\<close> entry, the records that
  getVideoRecords returns are, one for one and in order, the items whose \<open>id.kind\<close> is
  \<open>youtube#video\<close>, each with that item's id, publication time and title: an item is in
  the output exactly when it is a video. It returns normally on every page whose items
  are well formed.
\<close>

theorem getVideoRecords_only_videos:
  "json_loads_text response = Inr parsed \<and> py_getitem parsed ''items'' = Inr items \<and>
   py_iter items = Inr raw_items
   \<longrightarrow> (getVideoRecords response = Inr recs \<longrightarrow>
          list_all2 item_record (filter is_video raw_items) recs \<and>
          length recs = length (filter is_video raw_items))
       \<and> (list_all wf_item raw_items \<longrightarrow> (\<exists>rs. getVideoRecords response = Inr rs))"
proof (intro impI, elim conjE)
  assume a: "json_loads_text response = Inr parsed" "py_getitem parsed ''items'' = Inr items"
    "py_iter items = Inr raw_items"
  have "list_all2 item_record (filter is_video raw_items) recs \<and>
          length recs = length (filter is_video raw_items)"
    if "getVideoRecords response = Inr recs"
    using getVideoRecords_filter [OF a that] by (simp add: list_all2_lengthD)
  moreover have "\<exists>rs. getVideoRecords response = Inr rs" if "list_all wf_item raw_items"
    using a that by (rule getVideoRecords_total)
  ultimately show "(getVideoRecords response = Inr recs \<longrightarrow>
          list_all2 item_record (filter is_video raw_items) recs \<and>
          length recs = length (filter is_video raw_items))
       \<and> (list_all wf_item raw_items \<longrightarrow> (\<exists>rs. getVideoRecords response = Inr rs))"
    by simp
qed

text \<open>A page that mixes a channel hit and a playlist hit into two videos.\<close>

lemma getVideoRecords_mixed_page:
  "getVideoRecords mixed_page =
     Inr [\<lparr>video_id = PStr ''v1'', datetime = PStr ''2024-01-02T00:00:00Z'', title = PStr ''one''\<rparr>,
          \<lparr>video_id = PStr ''v2'', datetime = PStr ''2024-01-01T00:00:00Z'', title = PStr ''two''\<rparr>]"
  by (simp add: getVideoRecords_def mixed_page_def mixed_items_def search_page_def
      video_item_def channel_item_def playlist_item_def)

theorem getVideoRecords_only_videos_witness:
  "json_loads_text mixed_page
     = Inr (PDict [(''items'', PList mixed_items), (''nextPageToken'', PStr ''CAUQAA'')])
   \<and> py_iter (PList mixed_items) = Inr mixed_items
   \<and> list_all wf_item mixed_items
   \<and> filter is_video mixed_items
       = [video_item ''v1'' ''2024-01-02T00:00:00Z'' ''one'',
          video_item ''v2'' ''2024-01-01T00:00:00Z'' ''two'']
   \<and> (\<exists>recs. getVideoRecords mixed_page = Inr recs \<and> length recs = 2 \<and>
         list_all2 item_record (filter is_video mixed_items) recs)"
proof -
  let ?parsed = "PDict [(''items'', PList mixed_items), (''nextPageToken'', PStr ''CAUQAA'')]"
  have a: "json_loads_text mixed_page = Inr ?parsed"
    by (simp add: mixed_page_def search_page_def)
  have b: "py_getitem ?parsed ''items'' = Inr (PList mixed_items)" by simp
  have c: "py_iter (PList mixed_items) = Inr mixed_items" by simp
  have f: "filter is_video mixed_items
       = [video_item ''v1'' ''2024-01-02T00:00:00Z'' ''one'',
          video_item ''v2'' ''2024-01-01T00:00:00Z'' ''two'']"
    by (simp add: mixed_items_def is_video_def video_item_def channel_item_def playlist_item_def)
  have w: "list_all wf_item mixed_items"
    by (simp add: mixed_items_def wf_item_def is_video_def video_item_def channel_item_def
        playlist_item_def)
  have abc: "json_loads_text mixed_page = Inr ?parsed \<and>
      py_getitem ?parsed ''items'' = Inr (PList mixed_items) \<and>
      py_iter (PList mixed_items) = Inr mixed_items"
    using a b c by (intro conjI)
  note T = getVideoRecords_only_videos
    [of mixed_page ?parsed "PList mixed_items" mixed_items, THEN mp, OF abc]
  from T [THEN conjunct2, THEN mp, OF w]
  obtain rs where rs: "getVideoRecords mixed_page = Inr rs"
    by (elim exE)
  from T [of rs, THEN conjunct1, THEN mp, OF rs]
  have "list_all2 item_record (filter is_video mixed_items) rs \<and>
          length rs = length (filter is_video mixed_items)" .
  with f rs have "\<exists>recs. getVideoRecords mixed_page = Inr recs \<and> length recs = 2 \<and>
         list_all2 item_record (filter is_video mixed_items) recs"
    by simp
  with a c w f show ?thesis by simp
qed

section \<open>Properties of pagination\<close>


lemma getVideoIDs_loop_mock_stops:
  assumes "k < length pages"
    and "\<forall>j < k. \<not> isl (getVideoRecords (pages ! j)) \<and> py_ne_zero (next_page_token (pages ! j))"
    and "\<not> isl (getVideoRecords (pages ! k))"
    and "\<not> py_ne_zero (next_page_token (pages ! k))"
    and "n \<le> k" and "py_ne_zero page_token"
  shows "getVideoIDs_loop (mock_get pages) my_key n page_token acc =
     Some (Inr (acc @ concat (map page_records (take (Suc k - n) (drop n pages)))))"
  using assms(5,6)
proof (induction "k - n" arbitrary: n page_token acc)
  case 0
  then have n: "n = k" by simp
  from assms(3) obtain recs where r: "getVideoRecords (pages ! k) = Inr recs"
    by (auto dest!: not_isl_Inr)
  have "getVideoIDs_loop (mock_get pages) my_key (Suc k) (next_page_token (pages ! k)) (acc @ recs)
      = Some (Inr (acc @ recs))"
    using assms(4) by (subst getVideoIDs_loop.simps) simp
  moreover have "take (Suc 0) (drop k pages) = [pages ! k]"
    using assms(1) by (simp add: take_Suc_conv_app_nth)
  ultimately show ?case
    using "0.prems" assms(1) r n
    by (subst getVideoIDs_loop.simps) (simp add: mock_get_def page_records_def)
next
  case (Suc d)
  then have n: "n < k" by simp
  with assms(1) have nl: "n < length pages" by simp
  from assms(2) n obtain recs where r: "getVideoRecords (pages ! n) = Inr recs"
    and t: "py_ne_zero (next_page_token (pages ! n))"
    by (auto dest!: not_isl_Inr)
  have d: "d = k - Suc n" using Suc.hyps(2) by simp
  from n have le: "Suc n \<le> k" by simp
  have step: "getVideoIDs_loop (mock_get pages) my_key (Suc n) (next_page_token (pages ! n)) (acc @ recs)
      = Some (Inr ((acc @ recs) @ concat (map page_records (take (Suc k - Suc n) (drop (Suc n) pages)))))"
    using Suc.hyps(1) [OF d le t] .
  have "take (Suc k - n) (drop n pages) = pages ! n # take (Suc k - Suc n) (drop (Suc n) pages)"
  proof -
    have "drop n pages = pages ! n # drop (Suc n) pages"
      using nl by (simp add: Cons_nth_drop_Suc)
    moreover have "Suc k - n = Suc (Suc k - Suc n)" using n by simp
    ultimately show ?thesis by simp
  qed
  then have "acc @ concat (map page_records (take (Suc k - n) (drop n pages)))
      = (acc @ recs) @ concat (map page_records (take (Suc k - Suc n) (drop (Suc n) pages)))"
    using r by (simp add: page_records_def)
  with step Suc.prems nl r show ?case
    by (subst getVideoIDs_loop.simps) (simp add: mock_get_def)
qed


lemma py_ne_zero_PNone: "py_ne_zero PNone"
  by (simp add: py_ne_zero_def)

lemma getVideoIDs_mock_stops:
  assumes "k < length pages"
    and "\<forall>j < k. \<not> isl (getVideoRecords (pages ! j)) \<and> py_ne_zero (next_page_token (pages ! j))"
    and "\<not> isl (getVideoRecords (pages ! k))"
    and "\<not> py_ne_zero (next_page_token (pages ! k))"
  shows "getVideoIDs (mock_get pages) environ fs =
     Some (Inr (fs(''data/video-ids.parquet'' \<mapsto>
        DataFrame (concat (map page_records (take (Suc k) pages))))))"
  using getVideoIDs_loop_mock_stops [OF assms, of 0 PNone "getenv environ ''YT_API_KEY''" "[]"]
  by (simp add: getVideoIDs_def py_ne_zero_PNone write_parquet_def)












lemma df_getitem_DataFrame:
  "recs \<noteq> [] \<Longrightarrow> df_getitem (DataFrame recs) ''video_id'' = Inr (map video_id recs)"
  by (simp add: DataFrame_def df_getitem_def)







section \<open>Properties of the Embedding Generator\<close>

lemma str_nat_examples:
  "str_nat 0 = ''0''" "str_nat 7 = ''7''" "str_nat 10 = ''10''" "str_nat 383 = ''383''"
  by (simp_all add: str_nat.simps digit_char_def)

lemma digit_char_inj: "i < 10 \<Longrightarrow> j < 10 \<Longrightarrow> digit_char i = digit_char j \<Longrightarrow> i = j"
  by (simp add: digit_char_def nth_eq_iff_index_eq)

lemma str_nat_not_Nil: "str_nat n \<noteq> []"
  by (subst str_nat.simps) simp

lemma str_nat_inj: "str_nat n = str_nat m \<Longrightarrow> n = m"
proof (induction n arbitrary: m rule: less_induct)
  case (less n)
  show ?case
  proof (cases "n < 10")
    case n: True
    show ?thesis
    proof (cases "m < 10")
      case True
      with n less.prems show ?thesis
        by (simp add: str_nat.simps [of n] str_nat.simps [of m] digit_char_inj)
    next
      case False
      with n less.prems str_nat_not_Nil [of "m div 10"] show ?thesis
        by (simp add: str_nat.simps [of n] str_nat.simps [of m])
    qed
  next
    case n: False
    show ?thesis
    proof (cases "m < 10")
      case True
      with n less.prems str_nat_not_Nil [of "n div 10"] show ?thesis
        by (simp add: str_nat.simps [of n] str_nat.simps [of m])
    next
      case False
      with n less.prems have a: "str_nat (n div 10) = str_nat (m div 10)"
        and b: "digit_char (n mod 10) = digit_char (m mod 10)"
        by (simp_all add: str_nat.simps [of n] str_nat.simps [of m])
      from n have "n div 10 < n" by simp
      from less.IH [OF this a] have "n div 10 = m div 10" .
      moreover from b have "n mod 10 = m mod 10"
        by (intro digit_char_inj) simp_all
      ultimately show ?thesis
        by (metis div_mult_mod_eq)
    qed
  qed
qed

lemma embedding_column_name_inj:
  "embedding_column_name column_name i = embedding_column_name column_name j \<longleftrightarrow> i = j"
  by (auto simp: embedding_column_name_def dest: str_nat_inj)

lemma distinct_embedding_names:
  "distinct (map (embedding_column_name column_name) xs) = distinct xs"
  by (simp add: distinct_map inj_on_def embedding_column_name_inj)

lemma dict_keys_distinct: "distinct ks \<Longrightarrow> dict_keys ks = ks"
proof -
  assume "distinct ks"
  then have "distinct (rev ks)" by simp
  then have "remdups (rev ks) = rev ks" by (rule distinct_remdups_id)
  then show ?thesis by (simp only: dict_keys_def rev_rev_ident)
qed

lemma schema_dict_names:
  "schema_dict column_name d = map (embedding_column_name column_name) [0..<d]"
  by (simp add: schema_dict_def dict_keys_distinct distinct_embedding_names)

lemma DataFrame_of_array_columns:
  assumes "shape a = [n, d]" and "DataFrame_of_array a (map f [0..<d]) = Inr e"
  shows "map fst e = map f [0..<d] \<and> list_all (\<lambda>c. length (snd c) = n) e"
proof -
  from assms have len: "length (array_rows a) = n"
    and e: "e = map (\<lambda>j. (map f [0..<d] ! j, map (\<lambda>r. PFloat (r ! j)) (array_rows a))) [0..<d]"
    by (auto simp: DataFrame_of_array_def split: if_splits)
  have "map fst e = map f [0..<d]"
    unfolding e by (rule nth_equalityI) simp_all
  moreover have "list_all (\<lambda>c. length (snd c) = n) e"
    unfolding e by (simp add: list_all_iff len)
  ultimately show ?thesis ..
qed

lemma DataFrame_of_array_matrix:
  "matrix a n d \<Longrightarrow> \<exists>e. DataFrame_of_array a (map f [0..<d]) = Inr e"
  by (simp add: matrix_def DataFrame_of_array_def)

lemma rectangular_column:
  "rectangular df \<Longrightarrow> df_getitem df name = Inr col \<Longrightarrow> length col = df_len df"
proof -
  assume r: "rectangular df" and "df_getitem df name = Inr col"
  then have "map_of df name = Some col" by (simp add: df_getitem_Inr_iff)
  then have "(name, col) \<in> set df" by (rule map_of_SomeD)
  with r show ?thesis by (auto simp: rectangular_def list_all_iff)
qed

lemma df_len_append: "df \<noteq> [] \<Longrightarrow> df_len (df @ e) = df_len df"
  by (cases df) (simp_all add: df_len_def)

lemma concat_horizontal_same_height:
  assumes "rectangular df" and "df \<noteq> []"
    and "list_all (\<lambda>c. length (snd c) = df_len df) e"
    and "distinct (map fst (df @ e))"
  shows "concat_horizontal df e = Inr (df @ e)"
proof -
  have "df_len e = 0 \<or> df_len e = df_len df"
    using assms(3) by (cases e) (simp_all add: df_len_def)
  then have h: "max (df_len df) (df_len e) = df_len df" by auto
  have "map (\<lambda>c. (fst c, pad_column (df_len df) (snd c))) (df @ e) = df @ e"
    using assms(1,3) by (intro map_idI) (auto simp: rectangular_def list_all_iff pad_column_def)
  with assms(4) h show ?thesis
    by (simp add: concat_horizontal_def)
qed

lemma concat_horizontal_distinct:
  "concat_horizontal df e = Inr df' \<Longrightarrow> distinct (map fst (df @ e))"
  by (simp add: concat_horizontal_def split: if_splits)

lemma rectangular_append:
  "rectangular df \<Longrightarrow> df \<noteq> [] \<Longrightarrow> list_all (\<lambda>c. length (snd c) = df_len df) e \<Longrightarrow>
   rectangular (df @ e)"
  by (simp add: rectangular_def df_len_append)

lemma shape_index_matrix: "shape a = [n, d] \<Longrightarrow> shape_index a 1 = Inr d"
  by (simp add: shape_index_def)

lemma createTextEmbeddings_loop_step:
  assumes "rectangular df" and "embeds_each encode d"
    and "createTextEmbeddings_loop encode n (column_name # column_name_list) df = Inr df2"
  shows "\<exists>e. map fst e = map (embedding_column_name column_name) [0..<d] \<and>
     list_all (\<lambda>c. length (snd c) = df_len df) e \<and>
     distinct (map fst (df @ e)) \<and> df \<noteq> [] \<and>
     createTextEmbeddings_loop encode (Suc n) column_name_list (df @ e) = Inr df2"
proof -
  from assms(3) obtain sentences where s: "df_getitem df column_name = Inr sentences"
    by (auto split: sum.splits)
  with assms(3) obtain a where a: "encode n sentences = Inr a"
    by (auto split: sum.splits)
  with assms(2) have sh: "shape a = [length sentences, d]"
    by (simp add: embeds_each_def)
  then have i: "shape_index a 1 = Inr d" by (rule shape_index_matrix)
  from assms(3) s a i obtain e
    where e: "DataFrame_of_array a (map (embedding_column_name column_name) [0..<d]) = Inr e"
    by (auto simp: schema_dict_names split: sum.splits)
  with assms(3) s a i obtain df1 where c: "concat_horizontal df e = Inr df1"
    and rest: "createTextEmbeddings_loop encode (Suc n) column_name_list df1 = Inr df2"
    by (auto simp: schema_dict_names split: sum.splits)
  from s have ne: "df \<noteq> []" by (rule df_getitem_nonempty)
  from assms(1) s have len: "length sentences = df_len df" by (rule rectangular_column)
  from DataFrame_of_array_columns [OF sh e]
  have names: "map fst e = map (embedding_column_name column_name) [0..<d]"
    and cols: "list_all (\<lambda>c. length (snd c) = df_len df) e"
    by (simp_all add: len)
  from c have dist: "distinct (map fst (df @ e))" by (rule concat_horizontal_distinct)
  from concat_horizontal_same_height [OF assms(1) ne cols dist] c have "df1 = df @ e" by simp
  with rest names cols dist ne show ?thesis by blast
qed

lemma createTextEmbeddings_loop_columns:
  assumes "rectangular df" and "embeds_each encode d"
    and "createTextEmbeddings_loop encode 0 [''title'', ''transcript''] df = Inr df'"
  shows "\<exists>e1 e2. df' = df @ e1 @ e2 \<and>
     map fst e1 = map (embedding_column_name ''title'') [0..<d] \<and>
     map fst e2 = map (embedding_column_name ''transcript'') [0..<d] \<and>
     rectangular df' \<and> df_len df' = df_len df \<and> distinct (map fst df')"
proof -
  from createTextEmbeddings_loop_step [OF assms] obtain e1
    where n1: "map fst e1 = map (embedding_column_name ''title'') [0..<d]"
      and c1: "list_all (\<lambda>c. length (snd c) = df_len df) e1"
      and ne: "df \<noteq> []"
      and r1: "createTextEmbeddings_loop encode (Suc 0) [''transcript''] (df @ e1) = Inr df'"
    by blast
  have rect1: "rectangular (df @ e1)"
    using assms(1) ne c1 by (rule rectangular_append)
  have len1: "df_len (df @ e1) = df_len df"
    using ne by (rule df_len_append)
  from createTextEmbeddings_loop_step [OF rect1 assms(2) r1] obtain e2
    where n2: "map fst e2 = map (embedding_column_name ''transcript'') [0..<d]"
      and c2: "list_all (\<lambda>c. length (snd c) = df_len (df @ e1)) e2"
      and d2: "distinct (map fst ((df @ e1) @ e2))"
      and ne1: "df @ e1 \<noteq> []"
      and r2: "createTextEmbeddings_loop encode (Suc (Suc 0)) [] ((df @ e1) @ e2) = Inr df'"
    by blast
  from r2 have df': "df' = df @ e1 @ e2" by simp
  have "rectangular ((df @ e1) @ e2)"
    using rect1 ne1 c2 by (rule rectangular_append)
  moreover have "df_len ((df @ e1) @ e2) = df_len df"
    using df_len_append [OF ne1, of e2] len1 by simp
  ultimately show ?thesis
    using df' n1 n2 d2 by (intro exI [of _ e1] exI [of _ e2]) simp
qed

lemma df_getitem_append_left:
  "df_getitem df name = Inr col \<Longrightarrow> df_getitem (df @ e) name = Inr col"
  by (simp add: df_getitem_Inr_iff)

lemma createTextEmbeddings_loop_one:
  assumes "rectangular df" and "df_getitem df column_name = Inr sentences"
    and "encode n sentences = Inr a" and "matrix a (length sentences) d"
    and "distinct (map fst df @ map (embedding_column_name column_name) [0..<d])"
  shows "\<exists>e. map fst e = map (embedding_column_name column_name) [0..<d] \<and>
     list_all (\<lambda>c. length (snd c) = df_len df) e \<and>
     createTextEmbeddings_loop encode n (column_name # column_name_list) df =
       createTextEmbeddings_loop encode (Suc n) column_name_list (df @ e)"
proof -
  from assms(4) have sh: "shape a = [length sentences, d]" by (simp add: matrix_def)
  then have i: "shape_index a 1 = Inr d" by (rule shape_index_matrix)
  from DataFrame_of_array_matrix [OF assms(4)] obtain e
    where e: "DataFrame_of_array a (map (embedding_column_name column_name) [0..<d]) = Inr e" ..
  from assms(1,2) have len: "length sentences = df_len df" by (rule rectangular_column)
  from DataFrame_of_array_columns [OF sh e]
  have names: "map fst e = map (embedding_column_name column_name) [0..<d]"
    and cols: "list_all (\<lambda>c. length (snd c) = df_len df) e"
    by (simp_all add: len)
  from assms(2) have ne: "df \<noteq> []" by (rule df_getitem_nonempty)
  from assms(5) names have dist: "distinct (map fst (df @ e))" by simp
  have "concat_horizontal df e = Inr (df @ e)"
    using assms(1) ne cols dist by (rule concat_horizontal_same_height)
  with assms(2,3) i e have "createTextEmbeddings_loop encode n (column_name # column_name_list) df =
       createTextEmbeddings_loop encode (Suc n) column_name_list (df @ e)"
    by (simp add: schema_dict_names)
  with names cols show ?thesis by blast
qed

lemma createTextEmbeddings_loop_total:
  assumes "rectangular df"
    and "df_getitem df ''title'' = Inr ts" and "df_getitem df ''transcript'' = Inr rs"
    and "encode 0 ts = Inr a1" and "encode (Suc 0) rs = Inr a2"
    and "matrix a1 (length ts) d" and "matrix a2 (length rs) d"
    and "distinct (map fst df @ map (embedding_column_name ''title'') [0..<d] @
                   map (embedding_column_name ''transcript'') [0..<d])"
  shows "\<exists>df'. createTextEmbeddings_loop encode 0 [''title'', ''transcript''] df = Inr df'"
proof -
  from assms(8) have d1: "distinct (map fst df @ map (embedding_column_name ''title'') [0..<d])"
    by auto
  from createTextEmbeddings_loop_one
    [where encode = encode and n = 0 and column_name_list = "[''transcript'']",
      OF assms(1,2,4,6) d1] obtain e1
    where n1: "map fst e1 = map (embedding_column_name ''title'') [0..<d]"
      and c1: "list_all (\<lambda>c. length (snd c) = df_len df) e1"
      and s1: "createTextEmbeddings_loop encode 0 [''title'', ''transcript''] df =
         createTextEmbeddings_loop encode (Suc 0) [''transcript''] (df @ e1)"
    by blast
  from assms(2) have ne: "df \<noteq> []" by (rule df_getitem_nonempty)
  have rect1: "rectangular (df @ e1)" using assms(1) ne c1 by (rule rectangular_append)
  have rs1: "df_getitem (df @ e1) ''transcript'' = Inr rs"
    using assms(3) by (rule df_getitem_append_left)
  have d2: "distinct (map fst (df @ e1) @ map (embedding_column_name ''transcript'') [0..<d])"
    using assms(8) n1 by simp
  from createTextEmbeddings_loop_one
    [where encode = encode and n = "Suc 0" and column_name_list = "[]",
      OF rect1 rs1 assms(5,7) d2] obtain e2
    where "createTextEmbeddings_loop encode (Suc 0) [''transcript''] (df @ e1) =
         createTextEmbeddings_loop encode (Suc (Suc 0)) [] ((df @ e1) @ e2)"
    by blast
  with s1 show ?thesis by simp
qed

lemma embedding_column_name_examples:
  "embedding_column_name ''title'' 0 = ''title_embedding-0''"
  "embedding_column_name ''title'' 1 = ''title_embedding-1''"
  "embedding_column_name ''transcript'' 0 = ''transcript_embedding-0''"
  "embedding_column_name ''transcript'' 1 = ''transcript_embedding-1''"
  "embedding_column_name ''transcript'' 383 = ''transcript_embedding-383''"
  by (simp_all add: embedding_column_name_def str_nat.simps digit_char_def)

text \<open>
  C7. Let the transformed table be rectangular and let the model give one embedding of
  width \<open>d\<close> per sentence. When createTextEmbeddings returns, the index table it writes
  has the height of its input, holds the input's columns unchanged on the left, then the
  columns \<open>title_embedding-0\<close> to \<open>title_embedding-(d-1)\<close>, then
  \<open>transcript_embedding-0\<close> to \<open>transcript_embedding-(d-1)\<close>: \<open>2 * d\<close> columns more,
  every name once. It returns whenever the model answers both calls with such arrays and
  no input column bears the name of an embedding column. The index in a name is the
  decimal numeral of its position, different positions giving different names.
\<close>

theorem createTextEmbeddings_appends_embedding_columns:
  "(fs ''data/video-transcripts.parquet'' = Some df \<and> rectangular df \<and>
    SentenceTransformer ''all-MiniLM-L6-v2'' = Inr encode \<and> embeds_each encode d \<and>
    createTextEmbeddings SentenceTransformer fs = Inr fs'
    \<longrightarrow> (\<exists>df'. fs' = fs(''data/video-index.parquet'' \<mapsto> df') \<and>
          df_len df' = df_len df \<and> rectangular df' \<and>
          take (length df) df' = df \<and>
          map fst (drop (length df) df') =
            map (embedding_column_name ''title'') [0..<d] @
            map (embedding_column_name ''transcript'') [0..<d] \<and>
          length df' = length df + 2 * d \<and>
          distinct (map fst df')))
   \<and> (fs ''data/video-transcripts.parquet'' = Some df \<and> rectangular df \<and>
      SentenceTransformer ''all-MiniLM-L6-v2'' = Inr encode \<and>
      df_getitem df ''title'' = Inr ts \<and> df_getitem df ''transcript'' = Inr rs \<and>
      encode 0 ts = Inr a1 \<and> encode (Suc 0) rs = Inr a2 \<and>
      matrix a1 (length ts) d \<and> matrix a2 (length rs) d \<and>
      distinct (map fst df @ map (embedding_column_name ''title'') [0..<d] @
                map (embedding_column_name ''transcript'') [0..<d])
      \<longrightarrow> (\<exists>fs'. createTextEmbeddings SentenceTransformer fs = Inr fs'))
   \<and> (embedding_column_name column_name i = embedding_column_name column_name j \<longleftrightarrow> i = j)
   \<and> embedding_column_name ''title'' 0 = ''title_embedding-0''
   \<and> embedding_column_name ''transcript'' 383 = ''transcript_embedding-383''"
proof -
  have A: "fs ''data/video-transcripts.parquet'' = Some df \<and> rectangular df \<and>
    SentenceTransformer ''all-MiniLM-L6-v2'' = Inr encode \<and> embeds_each encode d \<and>
    createTextEmbeddings SentenceTransformer fs = Inr fs'
    \<longrightarrow> (\<exists>df'. fs' = fs(''data/video-index.parquet'' \<mapsto> df') \<and>
          df_len df' = df_len df \<and> rectangular df' \<and>
          take (length df) df' = df \<and>
          map fst (drop (length df) df') =
            map (embedding_column_name ''title'') [0..<d] @
            map (embedding_column_name ''transcript'') [0..<d] \<and>
          length df' = length df + 2 * d \<and>
          distinct (map fst df'))"
  proof (intro impI, elim conjE)
    assume tbl: "fs ''data/video-transcripts.parquet'' = Some df" and rect: "rectangular df"
      and load: "SentenceTransformer ''all-MiniLM-L6-v2'' = Inr encode"
      and emb: "embeds_each encode d"
      and run: "createTextEmbeddings SentenceTransformer fs = Inr fs'"
    from run tbl load obtain df'
      where loop: "createTextEmbeddings_loop encode 0 [''title'', ''transcript''] df = Inr df'"
        and fs': "fs' = fs(''data/video-index.parquet'' \<mapsto> df')"
      by (auto simp: createTextEmbeddings_def read_parquet_def write_parquet_def
          split: sum.splits)
    from createTextEmbeddings_loop_columns [OF rect emb loop] obtain e1 e2
      where df': "df' = df @ e1 @ e2"
        and n1: "map fst e1 = map (embedding_column_name ''title'') [0..<d]"
        and n2: "map fst e2 = map (embedding_column_name ''transcript'') [0..<d]"
        and r: "rectangular df'" and h: "df_len df' = df_len df"
        and dist: "distinct (map fst df')"
      by blast
    from n1 have l1: "length e1 = d" by (metis length_map length_upt minus_nat.diff_0)
    from n2 have l2: "length e2 = d" by (metis length_map length_upt minus_nat.diff_0)
    have "take (length df) df' = df" by (simp add: df')
    moreover have "map fst (drop (length df) df') =
            map (embedding_column_name ''title'') [0..<d] @
            map (embedding_column_name ''transcript'') [0..<d]"
      by (simp add: df' n1 n2)
    moreover have "length df' = length df + 2 * d"
      by (simp add: df' l1 l2)
    ultimately show "\<exists>df'. fs' = fs(''data/video-index.parquet'' \<mapsto> df') \<and>
          df_len df' = df_len df \<and> rectangular df' \<and>
          take (length df) df' = df \<and>
          map fst (drop (length df) df') =
            map (embedding_column_name ''title'') [0..<d] @
            map (embedding_column_name ''transcript'') [0..<d] \<and>
          length df' = length df + 2 * d \<and>
          distinct (map fst df')"
      using fs' h r dist by (intro exI [of _ df'] conjI)
  qed
  have B: "fs ''data/video-transcripts.parquet'' = Some df \<and> rectangular df \<and>
      SentenceTransformer ''all-MiniLM-L6-v2'' = Inr encode \<and>
      df_getitem df ''title'' = Inr ts \<and> df_getitem df ''transcript'' = Inr rs \<and>
      encode 0 ts = Inr a1 \<and> encode (Suc 0) rs = Inr a2 \<and>
      matrix a1 (length ts) d \<and> matrix a2 (length rs) d \<and>
      distinct (map fst df @ map (embedding_column_name ''title'') [0..<d] @
                map (embedding_column_name ''transcript'') [0..<d])
      \<longrightarrow> (\<exists>fs'. createTextEmbeddings SentenceTransformer fs = Inr fs')"
  proof (intro impI, elim conjE)
    assume tbl: "fs ''data/video-transcripts.parquet'' = Some df" and rect: "rectangular df"
      and load: "SentenceTransformer ''all-MiniLM-L6-v2'' = Inr encode"
      and cols: "df_getitem df ''title'' = Inr ts" "df_getitem df ''transcript'' = Inr rs"
      and enc: "encode 0 ts = Inr a1" "encode (Suc 0) rs = Inr a2"
      and mat: "matrix a1 (length ts) d" "matrix a2 (length rs) d"
      and dist: "distinct (map fst df @ map (embedding_column_name ''title'') [0..<d] @
                map (embedding_column_name ''transcript'') [0..<d])"
    from createTextEmbeddings_loop_total [OF rect cols enc mat dist] obtain df'
      where "createTextEmbeddings_loop encode 0 [''title'', ''transcript''] df = Inr df'" ..
    with tbl load show "\<exists>fs'. createTextEmbeddings SentenceTransformer fs = Inr fs'"
      by (simp add: createTextEmbeddings_def read_parquet_def)
  qed
  have C: "embedding_column_name column_name i = embedding_column_name column_name j \<longleftrightarrow> i = j"
    by (rule embedding_column_name_inj)
  show ?thesis
    by (intro conjI A B C embedding_column_name_examples(1) embedding_column_name_examples(5))
qed

lemma embedding_names_width_2:
  "map (embedding_column_name ''title'') [0..<2] = [''title_embedding-0'', ''title_embedding-1'']"
  "map (embedding_column_name ''transcript'') [0..<2] =
     [''transcript_embedding-0'', ''transcript_embedding-1'']"
  by (simp_all add: upt_rec embedding_column_name_def str_nat.simps digit_char_def)

lemma rectangular_three_transcripts: "rectangular three_transcripts"
  by (simp add: rectangular_def three_transcripts_def df_len_def)

lemma embeds_each_toy_model: "embeds_each toy_model 2"
  by (auto simp: embeds_each_def toy_model_def)

lemma createTextEmbeddings_three_transcripts:
  "createTextEmbeddings (\<lambda>name. Inr toy_model)
       [''data/video-transcripts.parquet'' \<mapsto> three_transcripts]
     = Inr [''data/video-transcripts.parquet'' \<mapsto> three_transcripts,
            ''data/video-index.parquet'' \<mapsto> three_index]"
  by (simp add: createTextEmbeddings_def read_parquet_def toy_model_def three_transcripts_def
      three_index_def df_getitem_def shape_index_def schema_dict_def dict_keys_def
      embedding_column_name_def str_nat.simps digit_char_def DataFrame_of_array_def
      concat_horizontal_def upt_rec pad_column_def df_len_def write_parquet_def)

theorem createTextEmbeddings_appends_embedding_columns_witness:
  "rectangular three_transcripts
   \<and> embeds_each toy_model 2
   \<and> createTextEmbeddings (\<lambda>name. Inr toy_model)
         [''data/video-transcripts.parquet'' \<mapsto> three_transcripts]
       = Inr [''data/video-transcripts.parquet'' \<mapsto> three_transcripts,
              ''data/video-index.parquet'' \<mapsto> three_index]
   \<and> df_len three_transcripts = 3
   \<and> df_len three_index = df_len three_transcripts
   \<and> take (length three_transcripts) three_index = three_transcripts
   \<and> map fst (drop (length three_transcripts) three_index) =
         [''title_embedding-0'', ''title_embedding-1'',
          ''transcript_embedding-0'', ''transcript_embedding-1'']
   \<and> length three_index = length three_transcripts + 2 * 2"
proof -
  let ?fs = "[''data/video-transcripts.parquet'' \<mapsto> three_transcripts]"
  let ?fs' = "[''data/video-transcripts.parquet'' \<mapsto> three_transcripts,
              ''data/video-index.parquet'' \<mapsto> three_index]"
  let ?load = "\<lambda>name :: string. (Inr toy_model :: py_error + sentence_model)"
  have a: "?fs ''data/video-transcripts.parquet'' = Some three_transcripts" by simp
  have b: "rectangular three_transcripts" by (rule rectangular_three_transcripts)
  have c: "?load ''all-MiniLM-L6-v2'' = Inr toy_model" by simp
  have d: "embeds_each toy_model 2" by (rule embeds_each_toy_model)
  have e: "createTextEmbeddings ?load ?fs = Inr ?fs'"
    by (rule createTextEmbeddings_three_transcripts)
  have h: "df_len three_transcripts = 3"
    by (simp add: three_transcripts_def df_len_def)
  have abcde: "?fs ''data/video-transcripts.parquet'' = Some three_transcripts \<and>
      rectangular three_transcripts \<and> ?load ''all-MiniLM-L6-v2'' = Inr toy_model \<and>
      embeds_each toy_model 2 \<and> createTextEmbeddings ?load ?fs = Inr ?fs'"
    using a b c d e by (intro conjI)
  note T = createTextEmbeddings_appends_embedding_columns
    [where fs = ?fs and df = three_transcripts and SentenceTransformer = ?load
       and encode = toy_model and d = 2 and fs' = ?fs']
  from T [THEN conjunct1, THEN mp, OF abcde] obtain df'
    where eq: "?fs' = ?fs(''data/video-index.parquet'' \<mapsto> df')"
      and len: "df_len df' = df_len three_transcripts"
      and left: "take (length three_transcripts) df' = three_transcripts"
      and names: "map fst (drop (length three_transcripts) df') =
            map (embedding_column_name ''title'') [0..<2] @
            map (embedding_column_name ''transcript'') [0..<2]"
      and cols: "length df' = length three_transcripts + 2 * 2"
    by (elim exE conjE)
  from eq have "Some three_index = Some df'" by (rule fun_upd_eqD)
  then have df': "df' = three_index" by simp
  have n: "map (embedding_column_name ''title'') [0..<2] @
            map (embedding_column_name ''transcript'') [0..<2] =
         [''title_embedding-0'', ''title_embedding-1'',
          ''transcript_embedding-0'', ''transcript_embedding-1'']"
    by (simp only: embedding_names_width_2 append.simps)
  have f: "df_len three_index = df_len three_transcripts"
    using len by (simp only: df')
  have g: "take (length three_transcripts) three_index = three_transcripts"
    using left by (simp only: df')
  have i: "map fst (drop (length three_transcripts) three_index) =
         [''title_embedding-0'', ''title_embedding-1'',
          ''transcript_embedding-0'', ''transcript_embedding-1'']"
    using names by (simp only: df' n)
  have j: "length three_index = length three_transcripts + 2 * 2"
    using cols by (simp only: df')
  show ?thesis
    by (intro conjI b d e h f g i j)
qed

section \<open>Properties of the pipeline\<close>

lemma rectangular_set_column:
  "rectangular df \<Longrightarrow> length col = df_len df \<Longrightarrow> rectangular (set_column name col df)"
proof (induction df)
  case Nil
  then show ?case by (simp add: rectangular_def df_len_def)
next
  case (Cons c cs)
  show ?case
  proof (cases "fst c = name")
    case True
    with Cons.prems show ?thesis by (simp add: rectangular_def df_len_def)
  next
    case False
    have "list_all (\<lambda>x. length (snd x) = length col) (set_column name col cs)"
      using Cons.prems by (induction cs) (simp_all add: rectangular_def df_len_def)
    with False Cons.prems show ?thesis by (simp add: rectangular_def df_len_def)
  qed
qed

lemma df_len_set_column_rect:
  "length col = df_len df \<Longrightarrow> df_len (set_column name col df) = df_len df"
  using df_len_set_column [of df col name] by simp

lemma with_columns_InrD:
  "with_columns df name col = Inr df' \<Longrightarrow> df \<noteq> [] \<Longrightarrow>
   df' = set_column name col df \<and> length col = df_len df"
  by (simp add: with_columns_def split: if_splits)

lemma series_cast_length:
  "series_cast f col = Inr col' \<Longrightarrow> length col' = length col"
  by (induction col arbitrary: col') (auto split: sum.splits if_splits)

lemma keeps_rows_refl: "rectangular df \<Longrightarrow> keeps_rows df df"
  by (simp add: keeps_rows_def)

lemma keeps_rows_trans: "keeps_rows a b \<Longrightarrow> keeps_rows b c \<Longrightarrow> keeps_rows a c"
  by (simp add: keeps_rows_def)

lemma keeps_rows_set_column:
  assumes "rectangular df" and "length col = df_len df" and "name \<noteq> ''video_id''"
  shows "keeps_rows df (set_column name col df)"
proof -
  have "rectangular (set_column name col df)"
    using assms(1,2) by (rule rectangular_set_column)
  moreover have "df_len (set_column name col df) = df_len df"
    using assms(2) by (rule df_len_set_column_rect)
  moreover have "df_getitem (set_column name col df) ''video_id'' = df_getitem df ''video_id''"
    using assms(3) by (intro df_getitem_set_column_other) simp
  ultimately show ?thesis by (simp add: keeps_rows_def)
qed

lemma getVideoTranscripts_keeps_rows:
  assumes "fs ''data/video-ids.parquet'' = Some df" and "rectangular df"
  shows "\<exists>df'. getVideoTranscripts g fs = Inr (fs(''data/video-transcripts.parquet'' \<mapsto> df')) \<and>
     keeps_rows df df'"
proof -
  let ?col = "map (transcript_text_of g df) [0..<df_len df]"
  have "keeps_rows df (set_column ''transcript'' ?col df)"
    using assms(2) by (intro keeps_rows_set_column) simp_all
  with getVideoTranscripts_table [where fs = fs and df = df and g = g, OF assms(1)]
  show ?thesis by blast
qed

lemma replace_in_column_keeps_rows:
  assumes "replace_in_column name i df = Inr df'" and "rectangular df" and "name \<noteq> ''video_id''"
  shows "keeps_rows df df'"
proof -
  from assms(1) obtain col where c: "text_column df name col"
    and df': "df' = set_column name
        (map (cell_replace (special_strings ! i) (special_string_replacements ! i)) col) df"
    unfolding replace_in_column_iff by (elim exE conjE)
  from c have "length col = df_len df" by (simp add: text_column_def)
  then have "length (map (cell_replace (special_strings ! i) (special_string_replacements ! i)) col)
      = df_len df" by simp
  with assms(2) show ?thesis
    unfolding df' using assms(3) by (rule keeps_rows_set_column)
qed

lemma handleSpecialStrings_loop_keeps_rows:
  "handleSpecialStrings_loop is df = Inr df' \<Longrightarrow> rectangular df \<Longrightarrow> keeps_rows df df'"
proof (induction "is" arbitrary: df)
  case Nil
  then show ?case by (simp add: keeps_rows_refl)
next
  case (Cons i "is")
  from Cons.prems(1) obtain df1 df2 where a: "replace_in_column ''title'' i df = Inr df1"
    and b: "replace_in_column ''transcript'' i df1 = Inr df2"
    and c: "handleSpecialStrings_loop is df2 = Inr df'"
    by (auto split: sum.splits)
  from a Cons.prems(2) have k1: "keeps_rows df df1"
    by (rule replace_in_column_keeps_rows) simp
  then have "rectangular df1" by (simp add: keeps_rows_def)
  with b have k2: "keeps_rows df1 df2"
    by (rule replace_in_column_keeps_rows) simp
  then have "rectangular df2" by (simp add: keeps_rows_def)
  with c have "keeps_rows df2 df'" by (rule Cons.IH)
  with k1 k2 show ?case by (blast intro: keeps_rows_trans)
qed

lemma handleSpecialStrings_keeps_rows:
  "handleSpecialStrings df = Inr df' \<Longrightarrow> rectangular df \<Longrightarrow> keeps_rows df df'"
  unfolding handleSpecialStrings_def by (rule handleSpecialStrings_loop_keeps_rows)

lemma setDatatypes_keeps_rows:
  assumes "setDatatypes f df = Inr df'" and "rectangular df"
  shows "keeps_rows df df'"
proof -
  from assms(1) obtain col col' where a: "df_getitem df ''datetime'' = Inr col"
    and b: "series_cast f col = Inr col'"
    and c: "with_columns df ''datetime'' col' = Inr df'"
    by (auto simp: setDatatypes_def split: sum.splits)
  from a have "df \<noteq> []" by (rule df_getitem_nonempty)
  with c have df': "df' = set_column ''datetime'' col' df" and len: "length col' = df_len df"
    by (auto dest: with_columns_InrD)
  from assms(2) len show ?thesis
    unfolding df' by (rule keeps_rows_set_column) simp
qed

lemma transformData_keeps_rows:
  assumes "transformData f fs = Inr fs'"
    and "fs ''data/video-transcripts.parquet'' = Some df" and "rectangular df"
  shows "\<exists>df'. fs' = fs(''data/video-transcripts.parquet'' \<mapsto> df') \<and> keeps_rows df df'"
proof -
  from assms(1,2) obtain df1 df2 where a: "handleSpecialStrings df = Inr df1"
    and b: "setDatatypes f df1 = Inr df2"
    and fs': "fs' = fs(''data/video-transcripts.parquet'' \<mapsto> df2)"
    by (auto simp: transformData_def read_parquet_def write_parquet_def split: sum.splits)
  from a assms(3) have k1: "keeps_rows df df1" by (rule handleSpecialStrings_keeps_rows)
  then have "rectangular df1" by (simp add: keeps_rows_def)
  with b have "keeps_rows df1 df2" by (rule setDatatypes_keeps_rows)
  with k1 have "keeps_rows df df2" by (rule keeps_rows_trans)
  with fs' show ?thesis by blast
qed

lemma df_getitem_append_other:
  "name \<notin> set (map fst e) \<Longrightarrow> df_getitem (df @ e) name = df_getitem df name"
proof -
  assume "name \<notin> set (map fst e)"
  then have "map_of e name = None" by (simp add: map_of_eq_None_iff)
  then have "map_of (df @ e) name = map_of df name"
    by (simp add: map_add_def split: option.splits)
  then show ?thesis by (simp add: df_getitem_def)
qed

lemma video_id_not_embedding_name:
  "''video_id'' \<notin> set (map (embedding_column_name ''title'') xs)"
  "''video_id'' \<notin> set (map (embedding_column_name ''transcript'') xs)"
  by (auto simp: embedding_column_name_def)

lemma createTextEmbeddings_keeps_rows:
  assumes "createTextEmbeddings SentenceTransformer fs = Inr fs'"
    and "fs ''data/video-transcripts.parquet'' = Some df" and "rectangular df"
    and "SentenceTransformer ''all-MiniLM-L6-v2'' = Inr encode" and "embeds_each encode d"
  shows "\<exists>df'. fs' = fs(''data/video-index.parquet'' \<mapsto> df') \<and> keeps_rows df df'"
proof -
  from assms(1,2,4) obtain df'
    where loop: "createTextEmbeddings_loop encode 0 [''title'', ''transcript''] df = Inr df'"
      and fs': "fs' = fs(''data/video-index.parquet'' \<mapsto> df')"
    by (auto simp: createTextEmbeddings_def read_parquet_def write_parquet_def split: sum.splits)
  from createTextEmbeddings_loop_columns [OF assms(3,5) loop] obtain e1 e2
    where df': "df' = df @ e1 @ e2"
      and n1: "map fst e1 = map (embedding_column_name ''title'') [0..<d]"
      and n2: "map fst e2 = map (embedding_column_name ''transcript'') [0..<d]"
      and r: "rectangular df'" and h: "df_len df' = df_len df"
    by blast
  have "''video_id'' \<notin> set (map fst (e1 @ e2))"
    using video_id_not_embedding_name [of "[0..<d]"] by (simp only: map_append n1 n2 set_append Un_iff) simp
  then have "df_getitem (df @ e1 @ e2) ''video_id'' = df_getitem df ''video_id''"
    by (rule df_getitem_append_other)
  with r h have "keeps_rows df df'" by (simp add: keeps_rows_def df')
  with fs' show ?thesis by blast
qed

lemma rectangular_DataFrame: "rectangular (DataFrame recs)"
  by (simp add: DataFrame_def rectangular_def df_len_def)

lemma df_len_DataFrame: "df_len (DataFrame recs) = length recs"
  by (simp add: DataFrame_def df_len_def)

lemma getVideoIDs_InrD:
  "getVideoIDs requests_get environ fs = Some (Inr fs1) \<Longrightarrow>
   \<exists>recs. fs1 = fs(''data/video-ids.parquet'' \<mapsto> DataFrame recs)"
  by (auto simp: getVideoIDs_def write_parquet_def split: option.splits sum.splits)

lemma transformData_needs_title:
  assumes "transformData f fs = Inr fs'" and "fs ''data/video-transcripts.parquet'' = Some df"
  shows "\<exists>ts. df_getitem df ''title'' = Inr ts"
proof -
  from assms obtain df1 where "handleSpecialStrings df = Inr df1"
    by (auto simp: transformData_def read_parquet_def split: sum.splits)
  from handleSpecialStrings_InrD [OF this] show ?thesis
    by (auto simp: text_column_def)
qed

lemma data_pipeline_tables:
  assumes "data_pipeline requests_get environ get_transcript to_datetime SentenceTransformer fs
      = Some (Inr fs')"
    and "SentenceTransformer ''all-MiniLM-L6-v2'' = Inr encode" and "embeds_each encode d"
  shows "\<exists>recs t3 t4. recs \<noteq> [] \<and>
     fs' ''data/video-ids.parquet'' = Some (DataFrame recs) \<and>
     fs' ''data/video-transcripts.parquet'' = Some t3 \<and>
     fs' ''data/video-index.parquet'' = Some t4 \<and>
     keeps_rows (DataFrame recs) t3 \<and> keeps_rows (DataFrame recs) t4"
proof -
  from assms(1) obtain fs1 fs2 fs3
    where s1: "getVideoIDs requests_get environ fs = Some (Inr fs1)"
      and s2: "getVideoTranscripts get_transcript fs1 = Inr fs2"
      and s3: "transformData to_datetime fs2 = Inr fs3"
      and s4: "createTextEmbeddings SentenceTransformer fs3 = Inr fs'"
    by (auto simp: data_pipeline_def split: option.splits sum.splits)
  from getVideoIDs_InrD [OF s1] obtain recs
    where fs1: "fs1 = fs(''data/video-ids.parquet'' \<mapsto> DataFrame recs)" ..
  let ?t1 = "DataFrame recs"
  have f1: "fs1 ''data/video-ids.parquet'' = Some ?t1" by (simp add: fs1)
  have r1: "rectangular ?t1" by (rule rectangular_DataFrame)
  from getVideoTranscripts_keeps_rows
    [where fs = fs1 and df = "DataFrame recs" and g = get_transcript, OF f1 r1] s2 obtain t2
    where fs2: "fs2 = fs1(''data/video-transcripts.parquet'' \<mapsto> t2)"
      and k2: "keeps_rows ?t1 t2"
    by auto
  have f2: "fs2 ''data/video-transcripts.parquet'' = Some t2" by (simp add: fs2)
  from k2 have r2: "rectangular t2" by (simp add: keeps_rows_def)
  from transformData_keeps_rows [where fs = fs2 and df = t2, OF s3 f2 r2] obtain t3
    where fs3: "fs3 = fs2(''data/video-transcripts.parquet'' \<mapsto> t3)"
      and k3: "keeps_rows t2 t3"
    by blast
  have f3: "fs3 ''data/video-transcripts.parquet'' = Some t3" by (simp add: fs3)
  from k3 have r3: "rectangular t3" by (simp add: keeps_rows_def)
  from createTextEmbeddings_keeps_rows [where fs = fs3 and df = t3, OF s4 f3 r3 assms(2,3)] obtain t4
    where fs4: "fs' = fs3(''data/video-index.parquet'' \<mapsto> t4)"
      and k4: "keeps_rows t3 t4"
    by blast
  from k2 k3 have k13: "keeps_rows ?t1 t3" by (rule keeps_rows_trans)
  from k13 k4 have k14: "keeps_rows ?t1 t4" by (rule keeps_rows_trans)
  have "recs \<noteq> []"
  proof
    assume "recs = []"
    then have "df_len ?t1 = 0" by (simp add: df_len_DataFrame)
    with s2 f1 \<open>recs = []\<close>
    have "fs2 = fs1(''data/video-transcripts.parquet'' \<mapsto> [(''transcript'', [])])"
      by (simp add: getVideoTranscripts_def read_parquet_def with_columns_def write_parquet_def
          DataFrame_def)
    then have "fs2 ''data/video-transcripts.parquet'' = Some [(''transcript'', [])]"
      by simp
    from transformData_needs_title [where fs = fs2, OF s3 this] show False
      by (simp add: df_getitem_def)
  qed
  moreover have "fs' ''data/video-ids.parquet'' = Some ?t1"
    by (simp add: fs4 fs3 fs2 fs1)
  moreover have "fs' ''data/video-transcripts.parquet'' = Some t3"
    by (simp add: fs4 fs3)
  moreover have "fs' ''data/video-index.parquet'' = Some t4"
    by (simp add: fs4)
  ultimately show ?thesis using k13 k14 by blast
qed

text \<open>
  C2. Let the model give one embedding of fixed width per sentence. After a run of the
  pipeline that ends normally, the identity table, the transcript table and the index
  table all lie in their files, each has a \<open>video_id\<close> column, the three columns are the
  same list, and the three tables have the height of that list: row \<open>i\<close> of every table
  is the video of row \<open>i\<close> of the identity table and no row is lost or added. The
  transcript stage alone, which cannot fail on a table that was read, already keeps the
  \<open>video_id\<close> column and the height of any rectangular identity table.
\<close>

theorem data_pipeline_preserves_rows:
  "(data_pipeline requests_get environ get_transcript to_datetime SentenceTransformer fs
        = Some (Inr fs') \<and>
    SentenceTransformer ''all-MiniLM-L6-v2'' = Inr encode \<and> embeds_each encode d
    \<longrightarrow> (\<exists>ids_table transcripts_table index_table ids.
          fs' ''data/video-ids.parquet'' = Some ids_table \<and>
          fs' ''data/video-transcripts.parquet'' = Some transcripts_table \<and>
          fs' ''data/video-index.parquet'' = Some index_table \<and>
          df_getitem ids_table ''video_id'' = Inr ids \<and>
          df_getitem transcripts_table ''video_id'' = Inr ids \<and>
          df_getitem index_table ''video_id'' = Inr ids \<and>
          df_len ids_table = length ids \<and>
          df_len transcripts_table = length ids \<and>
          df_len index_table = length ids))
   \<and> (fs ''data/video-ids.parquet'' = Some df \<and> rectangular df
      \<longrightarrow> (\<exists>df'. getVideoTranscripts get_transcript fs
                   = Inr (fs(''data/video-transcripts.parquet'' \<mapsto> df')) \<and>
                 df_getitem df' ''video_id'' = df_getitem df ''video_id'' \<and>
                 df_len df' = df_len df))"
proof -
  have A: "data_pipeline requests_get environ get_transcript to_datetime SentenceTransformer fs
        = Some (Inr fs') \<and>
    SentenceTransformer ''all-MiniLM-L6-v2'' = Inr encode \<and> embeds_each encode d
    \<longrightarrow> (\<exists>ids_table transcripts_table index_table ids.
          fs' ''data/video-ids.parquet'' = Some ids_table \<and>
          fs' ''data/video-transcripts.parquet'' = Some transcripts_table \<and>
          fs' ''data/video-index.parquet'' = Some index_table \<and>
          df_getitem ids_table ''video_id'' = Inr ids \<and>
          df_getitem transcripts_table ''video_id'' = Inr ids \<and>
          df_getitem index_table ''video_id'' = Inr ids \<and>
          df_len ids_table = length ids \<and>
          df_len transcripts_table = length ids \<and>
          df_len index_table = length ids)"
  proof (intro impI, elim conjE)
    assume run: "data_pipeline requests_get environ get_transcript to_datetime SentenceTransformer fs
        = Some (Inr fs')"
      and load: "SentenceTransformer ''all-MiniLM-L6-v2'' = Inr encode"
      and emb: "embeds_each encode d"
    from data_pipeline_tables [OF run load emb] obtain recs t3 t4
      where ne: "recs \<noteq> []"
        and f1: "fs' ''data/video-ids.parquet'' = Some (DataFrame recs)"
        and f3: "fs' ''data/video-transcripts.parquet'' = Some t3"
        and f4: "fs' ''data/video-index.parquet'' = Some t4"
        and k3: "keeps_rows (DataFrame recs) t3" and k4: "keeps_rows (DataFrame recs) t4"
      by blast
    let ?ids = "map video_id recs"
    from ne have i1: "df_getitem (DataFrame recs) ''video_id'' = Inr ?ids"
      by (rule df_getitem_DataFrame)
    have l1: "df_len (DataFrame recs) = length ?ids" by (simp add: df_len_DataFrame)
    from k3 i1 l1 have i3: "df_getitem t3 ''video_id'' = Inr ?ids" and l3: "df_len t3 = length ?ids"
      by (simp_all add: keeps_rows_def)
    from k4 i1 l1 have i4: "df_getitem t4 ''video_id'' = Inr ?ids" and l4: "df_len t4 = length ?ids"
      by (simp_all add: keeps_rows_def)
    show "\<exists>ids_table transcripts_table index_table ids.
          fs' ''data/video-ids.parquet'' = Some ids_table \<and>
          fs' ''data/video-transcripts.parquet'' = Some transcripts_table \<and>
          fs' ''data/video-index.parquet'' = Some index_table \<and>
          df_getitem ids_table ''video_id'' = Inr ids \<and>
          df_getitem transcripts_table ''video_id'' = Inr ids \<and>
          df_getitem index_table ''video_id'' = Inr ids \<and>
          df_len ids_table = length ids \<and>
          df_len transcripts_table = length ids \<and>
          df_len index_table = length ids"
      using f1 f3 f4 i1 i3 i4 l1 l3 l4
      by (intro exI [of _ "DataFrame recs"] exI [of _ t3] exI [of _ t4] exI [of _ ?ids] conjI)
  qed
  have B: "fs ''data/video-ids.parquet'' = Some df \<and> rectangular df
      \<longrightarrow> (\<exists>df'. getVideoTranscripts get_transcript fs
                   = Inr (fs(''data/video-transcripts.parquet'' \<mapsto> df')) \<and>
                 df_getitem df' ''video_id'' = df_getitem df ''video_id'' \<and>
                 df_len df' = df_len df)"
  proof (intro impI, elim conjE)
    assume tbl: "fs ''data/video-ids.parquet'' = Some df" and rect: "rectangular df"
    from getVideoTranscripts_keeps_rows
      [where fs = fs and df = df and g = get_transcript, OF tbl rect] obtain df'
      where "getVideoTranscripts get_transcript fs
                   = Inr (fs(''data/video-transcripts.parquet'' \<mapsto> df'))"
        and "keeps_rows df df'"
      by blast
    then show "\<exists>df'. getVideoTranscripts get_transcript fs
                   = Inr (fs(''data/video-transcripts.parquet'' \<mapsto> df')) \<and>
                 df_getitem df' ''video_id'' = df_getitem df ''video_id'' \<and>
                 df_len df' = df_len df"
      by (intro exI [of _ df']) (simp add: keeps_rows_def)
  qed
  show ?thesis by (intro conjI A B)
qed

lemma getVideoIDs_three_videos:
  "getVideoIDs (mock_get [three_videos_page]) Map.empty fs
     = Some (Inr (fs(''data/video-ids.parquet'' \<mapsto> three_ids)))"
proof -
  have r: "getVideoRecords three_videos_page =
     Inr [\<lparr>video_id = PStr ''v1'', datetime = PStr ''2024-01-01T00:00:00Z'', title = PStr ''one''\<rparr>,
          \<lparr>video_id = PStr ''v2'', datetime = PStr ''2024-01-02T00:00:00Z'', title = PStr ''two''\<rparr>,
          \<lparr>video_id = PStr ''v3'', datetime = PStr ''2024-01-03T00:00:00Z'', title = PStr ''three''\<rparr>]"
    by (simp add: getVideoRecords_def three_videos_page_def search_page_def video_item_def)
  have t: "next_page_token three_videos_page = PInt 0"
    by (simp add: next_page_token_def three_videos_page_def search_page_def)
  have "getVideoIDs (mock_get [three_videos_page]) Map.empty fs =
     Some (Inr (fs(''data/video-ids.parquet'' \<mapsto>
        DataFrame (concat (map page_records (take (Suc 0) [three_videos_page]))))))"
    by (rule getVideoIDs_mock_stops) (simp_all add: r t py_ne_zero_def)
  moreover have "DataFrame (concat (map page_records (take (Suc 0) [three_videos_page]))) = three_ids"
    by (simp add: page_records_def r DataFrame_def three_ids_def)
  ultimately show ?thesis by simp
qed

lemma getVideoTranscripts_three_ids:
  assumes "fs ''data/video-ids.parquet'' = Some three_ids"
  shows "getVideoTranscripts flaky_service fs
     = Inr (fs(''data/video-transcripts.parquet'' \<mapsto> three_fetched))"
proof -
  have "map (transcript_text_of flaky_service three_ids) [0..<df_len three_ids]
      = [PStr ''a b'', PStr ''n/a'', PStr ''c'']"
    by (simp add: df_len_three_ids upt_rec transcript_text_of_def df_getitem_three_ids
        series_getitem_def flaky_service_def extractTranscriptText_def py_join_def)
  moreover have "set_column ''transcript'' [PStr ''a b'', PStr ''n/a'', PStr ''c''] three_ids
      = three_fetched"
    by (simp add: three_ids_def three_fetched_def)
  ultimately show ?thesis
    using getVideoTranscripts_table [where fs = fs and df = three_ids and g = flaky_service, OF assms]
    by simp
qed

lemma transformData_three_fetched:
  assumes "fs ''data/video-transcripts.parquet'' = Some three_fetched"
  shows "transformData calendar fs
     = Inr (fs(''data/video-transcripts.parquet'' \<mapsto> three_transcripts))"
proof -
  have a: "handleSpecialStrings three_fetched = Inr three_fetched"
    by (simp add: handleSpecialStrings_def three_fetched_def three_ids_def special_strings_def
        special_string_replacements_def replace_in_column_def df_getitem_def with_columns_def
        df_len_def upt_rec)
  have b: "setDatatypes calendar three_fetched = Inr three_transcripts"
    by (simp add: setDatatypes_def three_fetched_def three_ids_def three_transcripts_def
        df_getitem_def with_columns_def df_len_def)
  from assms a b show ?thesis
    by (simp add: transformData_def read_parquet_def write_parquet_def)
qed

lemma createTextEmbeddings_three:
  assumes "fs ''data/video-transcripts.parquet'' = Some three_transcripts"
  shows "createTextEmbeddings (\<lambda>name. Inr toy_model) fs
     = Inr (fs(''data/video-index.parquet'' \<mapsto> three_index))"
proof -
  have "createTextEmbeddings_loop toy_model 0 [''title'', ''transcript''] three_transcripts
      = Inr three_index"
    by (simp add: toy_model_def three_transcripts_def
      three_index_def df_getitem_def shape_index_def schema_dict_def dict_keys_def
      embedding_column_name_def str_nat.simps digit_char_def DataFrame_of_array_def
      concat_horizontal_def upt_rec pad_column_def df_len_def)
  with assms show ?thesis
    by (simp add: createTextEmbeddings_def read_parquet_def write_parquet_def)
qed

lemma data_pipeline_three_videos:
  "data_pipeline (mock_get [three_videos_page]) Map.empty flaky_service calendar
       (\<lambda>name. Inr toy_model) Map.empty
     = Some (Inr [''data/video-ids.parquet'' \<mapsto> three_ids,
                  ''data/video-transcripts.parquet'' \<mapsto> three_transcripts,
                  ''data/video-index.parquet'' \<mapsto> three_index])"
proof -
  let ?fs1 = "[''data/video-ids.parquet'' \<mapsto> three_ids]"
  let ?fs2 = "?fs1(''data/video-transcripts.parquet'' \<mapsto> three_fetched)"
  let ?fs3 = "?fs2(''data/video-transcripts.parquet'' \<mapsto> three_transcripts)"
  have s1: "getVideoIDs (mock_get [three_videos_page]) Map.empty Map.empty = Some (Inr ?fs1)"
    by (rule getVideoIDs_three_videos)
  have s2: "getVideoTranscripts flaky_service ?fs1 = Inr ?fs2"
    by (rule getVideoTranscripts_three_ids) simp
  have s3: "transformData calendar ?fs2 = Inr ?fs3"
    by (rule transformData_three_fetched) simp
  have s4: "createTextEmbeddings (\<lambda>name. Inr toy_model) ?fs3
      = Inr (?fs3(''data/video-index.parquet'' \<mapsto> three_index))"
    by (rule createTextEmbeddings_three) simp
  have "data_pipeline (mock_get [three_videos_page]) Map.empty flaky_service calendar
       (\<lambda>name. Inr toy_model) Map.empty
      = Some (Inr (?fs3(''data/video-index.parquet'' \<mapsto> three_index)))"
    unfolding data_pipeline_def by (simp only: s1 s2 s3 s4 option.case sum.case)
  then show ?thesis by simp
qed

theorem data_pipeline_preserves_rows_witness:
  "data_pipeline (mock_get [three_videos_page]) Map.empty flaky_service calendar
       (\<lambda>name. Inr toy_model) Map.empty
     = Some (Inr [''data/video-ids.parquet'' \<mapsto> three_ids,
                  ''data/video-transcripts.parquet'' \<mapsto> three_transcripts,
                  ''data/video-index.parquet'' \<mapsto> three_index])
   \<and> embeds_each toy_model 2
   \<and> df_getitem three_transcripts ''transcript'' = Inr [PStr ''a b'', PStr ''n/a'', PStr ''c'']
   \<and> df_getitem three_ids ''video_id'' = Inr [PStr ''v1'', PStr ''v2'', PStr ''v3'']
   \<and> df_getitem three_transcripts ''video_id'' = Inr [PStr ''v1'', PStr ''v2'', PStr ''v3'']
   \<and> df_getitem three_index ''video_id'' = Inr [PStr ''v1'', PStr ''v2'', PStr ''v3'']
   \<and> df_len three_ids = 3
   \<and> df_len three_transcripts = 3
   \<and> df_len three_index = 3"
proof -
  let ?fs' = "[''data/video-ids.parquet'' \<mapsto> three_ids,
               ''data/video-transcripts.parquet'' \<mapsto> three_transcripts,
               ''data/video-index.parquet'' \<mapsto> three_index]"
  let ?load = "\<lambda>name :: string. (Inr toy_model :: py_error + sentence_model)"
  let ?v = "[PStr ''v1'', PStr ''v2'', PStr ''v3'']"
  have a: "data_pipeline (mock_get [three_videos_page]) Map.empty flaky_service calendar
       ?load Map.empty = Some (Inr ?fs')"
    by (rule data_pipeline_three_videos)
  have b: "?load ''all-MiniLM-L6-v2'' = Inr toy_model" by simp
  have c: "embeds_each toy_model 2" by (rule embeds_each_toy_model)
  have t: "df_getitem three_transcripts ''transcript'' = Inr [PStr ''a b'', PStr ''n/a'', PStr ''c'']"
    by (simp add: three_transcripts_def df_getitem_def)
  have abc: "data_pipeline (mock_get [three_videos_page]) Map.empty flaky_service calendar
       ?load Map.empty = Some (Inr ?fs') \<and>
     ?load ''all-MiniLM-L6-v2'' = Inr toy_model \<and> embeds_each toy_model 2"
    using a b c by (intro conjI)
  note T = data_pipeline_preserves_rows
    [where requests_get = "mock_get [three_videos_page]" and environ = Map.empty
       and get_transcript = flaky_service and to_datetime = calendar
       and SentenceTransformer = ?load and fs = Map.empty and fs' = ?fs'
       and encode = toy_model and d = 2]
  from T [THEN conjunct1, THEN mp, OF abc] obtain ids_table transcripts_table index_table ids
    where f1: "?fs' ''data/video-ids.parquet'' = Some ids_table"
      and f2: "?fs' ''data/video-transcripts.parquet'' = Some transcripts_table"
      and f3: "?fs' ''data/video-index.parquet'' = Some index_table"
      and i1: "df_getitem ids_table ''video_id'' = Inr ids"
      and i2: "df_getitem transcripts_table ''video_id'' = Inr ids"
      and i3: "df_getitem index_table ''video_id'' = Inr ids"
      and l1: "df_len ids_table = length ids"
      and l2: "df_len transcripts_table = length ids"
      and l3: "df_len index_table = length ids"
    by (elim exE conjE)
  from f1 have e1: "ids_table = three_ids" by simp
  from f2 have e2: "transcripts_table = three_transcripts" by simp
  from f3 have e3: "index_table = three_index" by simp
  from i1 have ids: "ids = ?v" by (simp add: e1 df_getitem_three_ids)
  have g1: "df_getitem three_ids ''video_id'' = Inr ?v" using i1 by (simp only: e1 ids)
  have g2: "df_getitem three_transcripts ''video_id'' = Inr ?v" using i2 by (simp only: e2 ids)
  have g3: "df_getitem three_index ''video_id'' = Inr ?v" using i3 by (simp only: e3 ids)
  have h1: "df_len three_ids = 3" using l1 by (simp add: e1 ids)
  have h2: "df_len three_transcripts = 3" using l2 by (simp add: e2 ids)
  have h3: "df_len three_index = 3" using l3 by (simp add: e3 ids)
  show ?thesis
    by (intro conjI a c t g1 g2 g3 h1 h2 h3)
qed

end
